theory Spec2Isabelle
  imports Complex_Main "HOL-Library.Word"
begin

section \<open>Python values and exceptions\<close>

text \<open>
  The exceptions that the program and the library calls it makes can raise. A raise is
  the \<open>Inl\<close> branch of a result \<open>error + 'a\<close>. \<open>ClientError\<close> stands for whatever
  exception a remote call (RPC or HTTP transport) raises. \<open>PanicException\<close> is what a
  panic inside the compiled address library raises.
\<close>

datatype error =
    ZeroDivisionError
  | OverflowError
  | TypeError
  | KeyError
  | ValueError
  | IndexError
  | HTTPError
  | JSONDecodeError
  | StreamError
  | ClientError string
  | RuntimeError string
  | PanicException

text \<open>
  \<open>except Exception\<close> catches every exception above but PanicException, which derives
  from \<open>BaseException\<close> and passes through the handler.
\<close>

definition caught :: "error \<Rightarrow> bool" where
  "caught e \<longleftrightarrow> e \<noteq> PanicException"

subsection \<open>Floats\<close>

text \<open>
  A Python \<open>float\<close> is an IEEE 754 binary64 value: a sign and a magnitude, an infinity
  with a sign, or a NaN. \<open>Fin s m\<close> is the finite value with sign \<open>s\<close> (\<open>True\<close> is
  negative) and magnitude \<open>m \<ge> 0\<close>, so the two zeros are \<open>Fin False 0\<close> and
  \<open>Fin True 0\<close>. Every operation rounds its exact result to the nearest representable
  magnitude, ties to even.
\<close>

datatype pyfloat = Fin bool rat | Inf bool | NaN

definition pow2 :: "int \<Rightarrow> rat" where
  "pow2 e = (if 0 \<le> e then 2 ^ nat e else 1 / 2 ^ nat (- e))"

text \<open>\<open>bit_length a\<close> is the number of binary digits of \<open>a > 0\<close>.\<close>

function bit_length :: "int \<Rightarrow> int" where
  "bit_length a = (if a \<le> 0 then 0 else 1 + bit_length (a div 2))"
  by pat_completeness auto
termination
  by (relation "measure nat") auto

declare bit_length.simps [simp del]

text \<open>\<open>ilog2 q\<close> is the integer \<open>e\<close> with \<open>2^e \<le> q < 2^(e+1)\<close>, for \<open>q > 0\<close>.\<close>

definition ilog2 :: "rat \<Rightarrow> int" where
  "ilog2 q =
     (let (a, b) = quotient_of q;
          d = bit_length a - bit_length b
      in if pow2 d \<le> q then d else d - 1)"

definition round_half_even :: "rat \<Rightarrow> int" where
  "round_half_even x =
     (let f = \<lfloor>x\<rfloor>; r = x - of_int f
      in if r < 1 / 2 then f
         else if 1 / 2 < r then f + 1
         else if even f then f else f + 1)"

text \<open>
  Rounding a non-negative exact magnitude to binary64: 53 significant bits, the least
  exponent that of the subnormals, \<open>None\<close> when the rounded magnitude leaves the range.
\<close>

definition round_binary64 :: "rat \<Rightarrow> rat option" where
  "round_binary64 q =
     (if q = 0 then Some 0
      else let e = max (ilog2 q) (- 1022);
               ulp = pow2 (e - 52);
               r = of_int (round_half_even (q / ulp)) * ulp
           in if pow2 1024 \<le> r then None else Some r)"

text \<open>\<open>float(i)\<close> for an \<open>int\<close>: correctly rounded, OverflowError beyond the range.\<close>

definition int_to_float :: "int \<Rightarrow> error + pyfloat" where
  "int_to_float i =
     (case round_binary64 (of_int \<bar>i\<bar>) of
        None \<Rightarrow> Inl OverflowError
      | Some m \<Rightarrow> Inr (Fin (i < 0) m))"

text \<open>\<open>a / b\<close> on two \<open>int\<close>s: the exact quotient, correctly rounded.\<close>

definition int_truediv :: "int \<Rightarrow> int \<Rightarrow> error + pyfloat" where
  "int_truediv a b =
     (if b = 0 then Inl ZeroDivisionError
      else case round_binary64 (of_int \<bar>a\<bar> / of_int \<bar>b\<bar>) of
             None \<Rightarrow> Inl OverflowError
           | Some m \<Rightarrow> Inr (Fin ((a < 0) \<noteq> (b < 0)) m))"

definition is_zero :: "pyfloat \<Rightarrow> bool" where
  "is_zero x = (case x of Fin s m \<Rightarrow> m = 0 | _ \<Rightarrow> False)"

text \<open>\<open>x / y\<close> on two floats: a zero divisor raises, everything else is IEEE division.\<close>

fun float_div :: "pyfloat \<Rightarrow> pyfloat \<Rightarrow> error + pyfloat" where
  "float_div x (Fin t b) =
     (if b = 0 then Inl ZeroDivisionError
      else case x of
             NaN \<Rightarrow> Inr NaN
           | Inf s \<Rightarrow> Inr (Inf (s \<noteq> t))
           | Fin s a \<Rightarrow>
               (case round_binary64 (a / b) of
                  None \<Rightarrow> Inr (Inf (s \<noteq> t))
                | Some m \<Rightarrow> Inr (Fin (s \<noteq> t) m)))"
| "float_div NaN y = Inr NaN"
| "float_div x NaN = Inr NaN"
| "float_div (Inf s) (Inf t) = Inr NaN"
| "float_div (Fin s a) (Inf t) = Inr (Fin (s \<noteq> t) 0)"

text \<open>\<open>x * y\<close> on two floats: IEEE multiplication, which never raises.\<close>

fun float_mul :: "pyfloat \<Rightarrow> pyfloat \<Rightarrow> pyfloat" where
  "float_mul NaN y = NaN"
| "float_mul x NaN = NaN"
| "float_mul (Inf s) (Inf t) = Inf (s \<noteq> t)"
| "float_mul (Inf s) (Fin t b) = (if b = 0 then NaN else Inf (s \<noteq> t))"
| "float_mul (Fin s a) (Inf t) = (if a = 0 then NaN else Inf (s \<noteq> t))"
| "float_mul (Fin s a) (Fin t b) =
     (case round_binary64 (a * b) of
        None \<Rightarrow> Inf (s \<noteq> t)
      | Some m \<Rightarrow> Fin (s \<noteq> t) m)"

declare float_div.simps [simp del] float_mul.simps [simp del]

subsection \<open>Numbers as Python values\<close>

text \<open>
  \<open>total_supply\<close> holds what the caller passed (an \<open>int\<close>) or the \<open>ui_amount\<close> of the
  supply lookup (a \<open>float\<close>, or \<open>None\<close>).
\<close>

datatype pyval = IntV int | FloatV pyfloat | NoneV

text \<open>\<open>x * v\<close> for a float \<open>x\<close>: an \<open>int\<close> is converted first, \<open>None\<close> is a TypeError.\<close>

fun float_mul_val :: "pyfloat \<Rightarrow> pyval \<Rightarrow> error + pyfloat" where
  "float_mul_val x (FloatV y) = Inr (float_mul x y)"
| "float_mul_val x (IntV i) =
     (case int_to_float i of Inl e \<Rightarrow> Inl e | Inr y \<Rightarrow> Inr (float_mul x y))"
| "float_mul_val x NoneV = Inl TypeError"

declare float_mul_val.simps [simp del]

subsection \<open>JSON values\<close>

text \<open>What \<open>resp.json()\<close> returns: a \<open>dict\<close> is the list of its items.\<close>

datatype json =
    JNull
  | JBool bool
  | JInt int
  | JFloat pyfloat
  | JStr string
  | JArr "json list"
  | JObj "(string \<times> json) list"

text \<open>\<open>v[key]\<close> with a string key: only a \<open>dict\<close> can be subscripted by it.\<close>

fun json_getitem :: "json \<Rightarrow> string \<Rightarrow> error + json" where
  "json_getitem (JObj kvs) k = (case map_of kvs k of None \<Rightarrow> Inl KeyError | Some v \<Rightarrow> Inr v)"
| "json_getitem v k = Inl TypeError"

text \<open>
  \<open>float(v)\<close>. The conversion of a \<open>str\<close> is the builtin's parser, a parameter here:
  \<open>None\<close> is its ValueError.
\<close>

fun py_float :: "(string \<Rightarrow> pyfloat option) \<Rightarrow> json \<Rightarrow> error + pyfloat" where
  "py_float fos (JFloat x) = Inr x"
| "py_float fos (JInt i) = int_to_float i"
| "py_float fos (JBool b) = Inr (Fin False (if b then 1 else 0))"
| "py_float fos (JStr s) = (case fos s of None \<Rightarrow> Inl ValueError | Some x \<Rightarrow> Inr x)"
| "py_float fos v = Inl TypeError"

section \<open>Addresses and the binary pool record\<close>

type_synonym byte = "8 word"

text \<open>A \<open>Pubkey\<close> is 32 bytes; \<open>Pubkey.from_bytes\<close> panics on any other length.\<close>

type_synonym pubkey = "byte list"

definition from_bytes :: "byte list \<Rightarrow> error + pubkey" where
  "from_bytes bs = (if length bs = 32 then Inr bs else Inl PanicException)"

text \<open>\<open>data[i:j]\<close> for \<open>0 \<le> i \<le> j\<close>: a slice is cut short at the end and never raises.\<close>

definition slice :: "nat \<Rightarrow> nat \<Rightarrow> 'a list \<Rightarrow> 'a list" where
  "slice i j xs = take (j - i) (drop i xs)"

subsection \<open>POOL_LAYOUT\<close>

text \<open>
  The fields are read one after the other from the front of the buffer. A field that
  finds fewer bytes than it needs raises StreamError; bytes after the last field are
  left unread.
\<close>

definition read_bytes :: "nat \<Rightarrow> byte list \<Rightarrow> error + (byte list \<times> byte list)" where
  "read_bytes n bs = (if length bs < n then Inl StreamError else Inr (take n bs, drop n bs))"

text \<open>The unsigned value of bytes in little-endian order.\<close>

fun le_value :: "byte list \<Rightarrow> int" where
  "le_value [] = 0"
| "le_value (b # bs) = uint b + 256 * le_value bs"

definition Padding :: "nat \<Rightarrow> byte list \<Rightarrow> error + (unit \<times> byte list)" where
  "Padding n bs = (case read_bytes n bs of Inl e \<Rightarrow> Inl e | Inr (_, rest) \<Rightarrow> Inr ((), rest))"

definition Int8ul :: "byte list \<Rightarrow> error + (8 word \<times> byte list)" where
  "Int8ul bs = (case read_bytes 1 bs of Inl e \<Rightarrow> Inl e | Inr (v, rest) \<Rightarrow> Inr (of_int (le_value v), rest))"

definition Int16ul :: "byte list \<Rightarrow> error + (16 word \<times> byte list)" where
  "Int16ul bs = (case read_bytes 2 bs of Inl e \<Rightarrow> Inl e | Inr (v, rest) \<Rightarrow> Inr (of_int (le_value v), rest))"

definition Int64ul :: "byte list \<Rightarrow> error + (64 word \<times> byte list)" where
  "Int64ul bs = (case read_bytes 8 bs of Inl e \<Rightarrow> Inl e | Inr (v, rest) \<Rightarrow> Inr (of_int (le_value v), rest))"

definition Bytes :: "nat \<Rightarrow> byte list \<Rightarrow> error + (byte list \<times> byte list)" where
  "Bytes n bs = read_bytes n bs"

text \<open>The container that \<open>POOL_LAYOUT.parse\<close> returns (the padding has no name).\<close>

record pool_record =
  d_pool_bump :: "8 word"
  d_index :: "16 word"
  d_creator :: "byte list"
  d_base_mint :: "byte list"
  d_quote_mint :: "byte list"
  d_lp_mint :: "byte list"
  d_pool_base_token_account :: "byte list"
  d_pool_quote_token_account :: "byte list"
  d_lp_supply :: "64 word"
  d_coin_creator :: "byte list"

text \<open>Reading one field and going on with the bytes after it; an error ends the parse.\<close>

definition then_parse ::
  "error + ('a \<times> byte list) \<Rightarrow> ('a \<Rightarrow> byte list \<Rightarrow> error + 'b) \<Rightarrow> error + 'b" where
  "then_parse r k = (case r of Inl e \<Rightarrow> Inl e | Inr p \<Rightarrow> k (fst p) (snd p))"

definition POOL_LAYOUT_parse :: "byte list \<Rightarrow> error + pool_record" where
  "POOL_LAYOUT_parse b0 =
     then_parse (Padding 8 b0) (\<lambda>_ b1.
     then_parse (Int8ul b1) (\<lambda>bump b2.
     then_parse (Int16ul b2) (\<lambda>idx b3.
     then_parse (Bytes 32 b3) (\<lambda>cr b4.
     then_parse (Bytes 32 b4) (\<lambda>bm b5.
     then_parse (Bytes 32 b5) (\<lambda>qm b6.
     then_parse (Bytes 32 b6) (\<lambda>lm b7.
     then_parse (Bytes 32 b7) (\<lambda>pb b8.
     then_parse (Bytes 32 b8) (\<lambda>pq b9.
     then_parse (Int64ul b9) (\<lambda>ls b10.
     then_parse (Bytes 32 b10) (\<lambda>cc _.
       Inr \<lparr> d_pool_bump = bump, d_index = idx, d_creator = cr, d_base_mint = bm,
             d_quote_mint = qm, d_lp_mint = lm, d_pool_base_token_account = pb,
             d_pool_quote_token_account = pq, d_lp_supply = ls,
             d_coin_creator = cc \<rparr>)))))))))))"

subsection \<open>The synthetic fixture of the specification\<close>

text \<open>
  The specification's round-trip fixture: a buffer built by placing field values at the
  layout's offsets. \<open>le_bytes n v\<close> is the \<open>n\<close>-byte little-endian rendering of \<open>v\<close>;
  \<open>pad\<close> is whatever fills the 8 skipped bytes.
\<close>

fun le_bytes :: "nat \<Rightarrow> int \<Rightarrow> byte list" where
  "le_bytes 0 v = []"
| "le_bytes (Suc n) v = of_int (v mod 256) # le_bytes n (v div 256)"

definition build_pool_record :: "byte list \<Rightarrow> pool_record \<Rightarrow> byte list" where
  "build_pool_record pad r =
     pad @ [d_pool_bump r] @ le_bytes 2 (uint (d_index r))
       @ d_creator r @ d_base_mint r @ d_quote_mint r @ d_lp_mint r
       @ d_pool_base_token_account r @ d_pool_quote_token_account r
       @ le_bytes 8 (uint (d_lp_supply r)) @ d_coin_creator r"

text \<open>The fixture's fields have the sizes the layout gives them.\<close>

definition well_sized :: "pool_record \<Rightarrow> bool" where
  "well_sized r \<longleftrightarrow>
     length (d_creator r) = 32 \<and> length (d_base_mint r) = 32 \<and>
     length (d_quote_mint r) = 32 \<and> length (d_lp_mint r) = 32 \<and>
     length (d_pool_base_token_account r) = 32 \<and>
     length (d_pool_quote_token_account r) = 32 \<and> length (d_coin_creator r) = 32"

section \<open>The remote collaborators\<close>

text \<open>
  The RPC node and the price oracle answer from a state \<open>'w\<close> that every call may
  change, so a call takes the state and returns its outcome with the new state. The
  outcome is the value the call returned, or the exception it raised.
\<close>

type_synonym ('w, 'a) io = "'w \<Rightarrow> (error + 'a) \<times> 'w"

definition returns :: "'a \<Rightarrow> ('w, 'a) io" where
  "returns x w = (Inr x, w)"

definition raises :: "error \<Rightarrow> ('w, 'a) io" where
  "raises e w = (Inl e, w)"

text \<open>A local computation: it may raise, and leaves the remote state alone.\<close>

definition pure_step :: "error + 'a \<Rightarrow> ('w, 'a) io" where
  "pure_step r w = (r, w)"

text \<open>One statement after the other: an exception skips the rest.\<close>

definition and_then :: "('w, 'a) io \<Rightarrow> ('a \<Rightarrow> ('w, 'b) io) \<Rightarrow> ('w, 'b) io" where
  "and_then m k w = (case m w of (r, w1) \<Rightarrow> (case r of Inl e \<Rightarrow> (Inl e, w1) | Inr x \<Rightarrow> k x w1))"

definition or_raise :: "error + 'a \<Rightarrow> ('a \<Rightarrow> error + 'b) \<Rightarrow> error + 'b" where
  "or_raise r k = (case r of Inl e \<Rightarrow> Inl e | Inr x \<Rightarrow> k x)"

text \<open>\<open>try: return m  except Exception: return None\<close>\<close>

definition try_or_none :: "('w, 'a) io \<Rightarrow> ('w, 'a option) io" where
  "try_or_none m w =
     (case m w of (r, w1) \<Rightarrow>
        (case r of
           Inl e \<Rightarrow> if caught e then (Inr None, w1) else (Inl e, w1)
         | Inr x \<Rightarrow> (Inr (Some x), w1)))"

record MemcmpOpts =
  offset :: nat
  bytes :: string

text \<open>An entry of \<open>get_program_accounts(...).value\<close>: \<open>acct.pubkey\<close> and \<open>acct.account.data\<close>.\<close>

record keyed_account =
  acct_pubkey :: pubkey
  acct_data :: "byte list"

record response =
  status_code :: int
  body :: "json option"

text \<open>
  The calls the program makes. Each field is the source expression named beside it, with
  the attribute accesses and conversions around the call folded in, all of which raise
  into the same handler:
  \<^item> \<open>pubkey_from_string s\<close>: \<open>Pubkey.from_string(s)\<close>; \<open>pubkey_str k\<close>: \<open>str(k)\<close>, the
    base-58 text;
  \<^item> \<open>float_of_str\<close>: \<open>float(s)\<close> on a \<open>str\<close>;
  \<^item> \<open>get_token_supply k\<close>: \<open>client.get_token_supply(k).value.ui_amount\<close>;
  \<^item> \<open>get_program_accounts p fs\<close>: \<open>client.get_program_accounts(p, filters=fs)\<close>, read
    through \<open>.value\<close>; the program is named by its base-58 text;
  \<^item> \<open>get_token_account_balance k\<close>:
    \<open>int(client.get_token_account_balance(k).value.amount)\<close>; the node renders a token
    amount, an unsigned 64-bit count of smallest units, as decimal text, so the \<open>int\<close>
    is a natural number, and any other text is the ValueError of \<open>int\<close>;
  \<^item> \<open>get_account_data k\<close>: \<open>client.get_account_info_json_parsed(k, Processed).value.data\<close>
    as bytes;
  \<^item> \<open>get_mint_decimals k\<close>: the same call, read through
    \<open>.value.data.parsed["info"]["decimals"]\<close>, a count of decimal places;
  \<^item> \<open>get_multiple_accounts ks\<close>:
    \<open>client.get_multiple_accounts_json_parsed(ks, Processed).value\<close>, entry \<open>i\<close> being the
    outcome of \<open>int(resp[i].data.parsed["info"]["tokenAmount"]["amount"])\<close>;
  \<^item> \<open>requests_get url\<close>: \<open>requests.get(url)\<close>; the response's \<open>body\<close> is \<open>None\<close> when
    it is not JSON.
\<close>

record 'w env =
  pubkey_from_string :: "string \<Rightarrow> error + pubkey"
  pubkey_str :: "pubkey \<Rightarrow> string"
  float_of_str :: "string \<Rightarrow> pyfloat option"
  get_token_supply :: "pubkey \<Rightarrow> ('w, pyval) io"
  get_program_accounts :: "string \<Rightarrow> MemcmpOpts list \<Rightarrow> ('w, keyed_account list) io"
  get_token_account_balance :: "pubkey \<Rightarrow> ('w, nat) io"
  get_account_data :: "pubkey \<Rightarrow> ('w, byte list) io"
  get_mint_decimals :: "pubkey \<Rightarrow> ('w, nat) io"
  get_multiple_accounts :: "pubkey list \<Rightarrow> ('w, (error + nat) list) io"
  requests_get :: "string \<Rightarrow> ('w, response) io"

section \<open>PumpSwapMarketCap\<close>

record PoolKeys =
  amm :: pubkey
  base_mint :: pubkey
  quote_mint :: pubkey
  pool_base_token_account :: pubkey
  pool_quote_token_account :: pubkey
  creator :: pubkey

record MarketCapData =
  token_price_sol :: pyfloat
  token_price_usd :: pyfloat
  market_cap_usd :: pyfloat

text \<open>
  The fields of \<open>self\<close> once \<open>__init__\<close> has returned; \<open>env\<close> stands for \<open>self.client\<close>.
  The two decimal counts are numbers of decimal places, so \<open>10 ** decimals\<close> is an \<open>int\<close>.
\<close>

record PumpSwapMarketCap =
  mint_str :: string
  mint_pubkey :: pubkey
  quote_decimals :: nat
  total_supply :: pyval
  pool_id :: string
  pool_keys :: PoolKeys
  token_decimals :: nat

definition PF_AMM :: string where
  "PF_AMM = ''pAMMBay6oceH9fJKBRHGP5D4bD4sWpmSwMn52FMfXEA''"

definition WSOL :: string where
  "WSOL = ''So11111111111111111111111111111111111111112''"

definition DIA_URL :: string where
  "DIA_URL = ''https://api.diadata.org/v1/assetQuotation/Solana/0x0000000000000000000000000000000000000000''"

subsection \<open>_fetch_pool_from_rpc\<close>

definition filters_list :: "string \<Rightarrow> MemcmpOpts list list" where
  "filters_list base_str =
     (let quote_str = WSOL
      in [[\<lparr>offset = 43, bytes = base_str\<rparr>, \<lparr>offset = 75, bytes = quote_str\<rparr>],
          [\<lparr>offset = 43, bytes = quote_str\<rparr>, \<lparr>offset = 75, bytes = base_str\<rparr>]])"

text \<open>The body of the inner \<open>try\<close> up to the two balances; \<open>liq\<close> is their product.\<close>

definition candidate_balances :: "'w env \<Rightarrow> keyed_account \<Rightarrow> ('w, nat \<times> nat) io" where
  "candidate_balances env acct =
     (let data = acct_data acct in
      and_then (pure_step (from_bytes (slice 139 171 data))) (\<lambda>base_acc.
      and_then (pure_step (from_bytes (slice 171 203 data))) (\<lambda>quote_acc.
      and_then (get_token_account_balance env base_acc) (\<lambda>bal_base.
      and_then (get_token_account_balance env quote_acc) (\<lambda>bal_quote.
      returns (bal_base, bal_quote))))))"

text \<open>
  The inner loop over \<open>resp.value\<close>, on the pair \<open>(best, max_liq)\<close>: a candidate whose
  scoring raised an exception the handler catches is passed over, one with a strictly
  greater product replaces the best. An exception the handler does not catch ends the
  loop and the function.
\<close>

fun scan_accounts ::
  "'w env \<Rightarrow> keyed_account list \<Rightarrow> string option \<times> nat \<Rightarrow> ('w, string option \<times> nat) io" where
  "scan_accounts env [] st w = (Inr st, w)"
| "scan_accounts env (acct # rest) st w =
     (case candidate_balances env acct w of
        (Inl e, w1) \<Rightarrow> if caught e then scan_accounts env rest st w1 else (Inl e, w1)
      | (Inr bals, w1) \<Rightarrow>
          (let liq = fst bals * snd bals
           in if liq > snd st
              then scan_accounts env rest (Some (pubkey_str env (acct_pubkey acct)), liq) w1
              else scan_accounts env rest st w1))"

text \<open>
  The outer loop over the filter sets: a query that raised an exception the handler
  catches is passed over.
\<close>

fun scan_filters ::
  "'w env \<Rightarrow> MemcmpOpts list list \<Rightarrow> string option \<times> nat \<Rightarrow> ('w, string option \<times> nat) io" where
  "scan_filters env [] st w = (Inr st, w)"
| "scan_filters env (filters # rest) st w =
     (case get_program_accounts env PF_AMM filters w of
        (Inl e, w1) \<Rightarrow> if caught e then scan_filters env rest st w1 else (Inl e, w1)
      | (Inr accts, w1) \<Rightarrow>
          (case scan_accounts env accts st w1 of
             (Inl e, w2) \<Rightarrow> (Inl e, w2)
           | (Inr st2, w2) \<Rightarrow> scan_filters env rest st2 w2))"

definition fetch_pool_from_rpc :: "'w env \<Rightarrow> string \<Rightarrow> ('w, string option) io" where
  "fetch_pool_from_rpc env base_str =
     and_then (scan_filters env (filters_list base_str) (None, 0)) (\<lambda>st. returns (fst st))"

subsection \<open>The candidates a run scores\<close>

text \<open>
  The successfully scored candidates of a run, in the order the loops meet them: the
  text of the account's address and the two balances read for it. A run that an
  uncaught exception ends has that exception in place of the list.
\<close>

type_synonym candidate = "string \<times> nat \<times> nat"

definition cand_id :: "candidate \<Rightarrow> string" where
  "cand_id c = fst c"

definition bal_base :: "candidate \<Rightarrow> nat" where
  "bal_base c = fst (snd c)"

definition bal_quote :: "candidate \<Rightarrow> nat" where
  "bal_quote c = snd (snd c)"

definition liquidity :: "candidate \<Rightarrow> nat" where
  "liquidity c = fst (snd c) * snd (snd c)"

definition prepend :: "'a list \<Rightarrow> ('w, 'a list) io \<Rightarrow> ('w, 'a list) io" where
  "prepend cs m = and_then m (\<lambda>ds. returns (cs @ ds))"

fun scored_accounts :: "'w env \<Rightarrow> keyed_account list \<Rightarrow> ('w, candidate list) io" where
  "scored_accounts env [] w = (Inr [], w)"
| "scored_accounts env (acct # rest) w =
     (case candidate_balances env acct w of
        (Inl e, w1) \<Rightarrow> if caught e then scored_accounts env rest w1 else (Inl e, w1)
      | (Inr bals, w1) \<Rightarrow>
          prepend [(pubkey_str env (acct_pubkey acct), bals)] (scored_accounts env rest) w1)"

fun scored_filters :: "'w env \<Rightarrow> MemcmpOpts list list \<Rightarrow> ('w, candidate list) io" where
  "scored_filters env [] w = (Inr [], w)"
| "scored_filters env (filters # rest) w =
     (case get_program_accounts env PF_AMM filters w of
        (Inl e, w1) \<Rightarrow> if caught e then scored_filters env rest w1 else (Inl e, w1)
      | (Inr accts, w1) \<Rightarrow>
          (case scored_accounts env accts w1 of
             (Inl e, w2) \<Rightarrow> (Inl e, w2)
           | (Inr cs, w2) \<Rightarrow> prepend cs (scored_filters env rest) w2))"

text \<open>The candidates of a run that returns; a run that raises has none to choose from.\<close>

definition scored_candidates :: "'w env \<Rightarrow> string \<Rightarrow> 'w \<Rightarrow> candidate list" where
  "scored_candidates env base_str w =
     (case fst (scored_filters env (filters_list base_str) w) of
        Inl e \<Rightarrow> []
      | Inr cs \<Rightarrow> cs)"

text \<open>The running maximum, one candidate at a time.\<close>

definition keep_best :: "string option \<times> nat \<Rightarrow> candidate \<Rightarrow> string option \<times> nat" where
  "keep_best st c = (if liquidity c > snd st then (Some (cand_id c), liquidity c) else st)"

subsection \<open>_fetch_pool_keys\<close>

definition decode_pool_keys :: "pubkey \<Rightarrow> byte list \<Rightarrow> error + PoolKeys" where
  "decode_pool_keys amm_key data =
     or_raise (POOL_LAYOUT_parse data) (\<lambda>decoded.
     or_raise (from_bytes (d_base_mint decoded)) (\<lambda>bm.
     or_raise (from_bytes (d_quote_mint decoded)) (\<lambda>qm.
     or_raise (from_bytes (d_pool_base_token_account decoded)) (\<lambda>pb.
     or_raise (from_bytes (d_pool_quote_token_account decoded)) (\<lambda>pq.
     or_raise (from_bytes (d_coin_creator decoded)) (\<lambda>cc.
       Inr \<lparr> amm = amm_key, base_mint = bm, quote_mint = qm,
             pool_base_token_account = pb, pool_quote_token_account = pq,
             creator = cc \<rparr>))))))"

definition fetch_pool_keys :: "'w env \<Rightarrow> string \<Rightarrow> ('w, PoolKeys option) io" where
  "fetch_pool_keys env pool =
     try_or_none
       (and_then (pure_step (pubkey_from_string env pool)) (\<lambda>amm_key.
        and_then (get_account_data env amm_key) (\<lambda>data.
        pure_step (decode_pool_keys amm_key data))))"

subsection \<open>_get_pool_reserves\<close>

text \<open>\<open>xs[i]\<close> for \<open>i \<ge> 0\<close>.\<close>

definition list_getitem :: "'a list \<Rightarrow> nat \<Rightarrow> error + 'a" where
  "list_getitem xs i = (if i < length xs then Inr (xs ! i) else Inl IndexError)"

definition get_pool_reserves :: "'w env \<Rightarrow> PoolKeys \<Rightarrow> ('w, nat \<times> nat) io" where
  "get_pool_reserves env keys =
     (let accts = [pool_base_token_account keys, pool_quote_token_account keys] in
      and_then (get_multiple_accounts env accts) (\<lambda>resp.
      pure_step
        (or_raise (list_getitem resp 0) (\<lambda>r0.
         or_raise r0 (\<lambda>base_amt.
         or_raise (list_getitem resp 1) (\<lambda>r1.
         or_raise r1 (\<lambda>quote_amt.
           Inr (base_amt, quote_amt))))))))"

subsection \<open>_get_sol_price_usd\<close>

text \<open>\<open>raise_for_status\<close> raises for the client and server error codes, 400 to 599.\<close>

definition raise_for_status :: "response \<Rightarrow> error + unit" where
  "raise_for_status resp =
     (if 400 \<le> status_code resp \<and> status_code resp < 600 then Inl HTTPError else Inr ())"

definition response_json :: "response \<Rightarrow> error + json" where
  "response_json resp = (case body resp of None \<Rightarrow> Inl JSONDecodeError | Some v \<Rightarrow> Inr v)"

definition get_sol_price_usd :: "'w env \<Rightarrow> ('w, pyfloat) io" where
  "get_sol_price_usd env =
     and_then (requests_get env DIA_URL) (\<lambda>resp.
     pure_step
       (or_raise (raise_for_status resp) (\<lambda>_.
        or_raise (response_json resp) (\<lambda>j.
        or_raise (json_getitem j ''Price'') (\<lambda>v.
          py_float (float_of_str env) v)))))"

subsection \<open>get_market_cap\<close>

definition get_market_cap :: "'w env \<Rightarrow> PumpSwapMarketCap \<Rightarrow> ('w, MarketCapData) io" where
  "get_market_cap env self =
     and_then (get_pool_reserves env (pool_keys self)) (\<lambda>reserves.
     let base_reserve = fst reserves; quote_reserve = snd reserves in
     and_then (pure_step (int_truediv (int base_reserve) (10 ^ token_decimals self))) (\<lambda>token_amt.
     and_then (pure_step (int_truediv (int quote_reserve) (10 ^ quote_decimals self))) (\<lambda>sol_amt.
     and_then (pure_step (float_div sol_amt token_amt)) (\<lambda>token_price_sol'.
     and_then (get_sol_price_usd env) (\<lambda>sol_usd.
     let token_price_usd' = float_mul token_price_sol' sol_usd in
     and_then (pure_step (float_mul_val token_price_usd' (total_supply self))) (\<lambda>market_cap_usd'.
       returns \<lparr> token_price_sol = token_price_sol',
                 token_price_usd = token_price_usd',
                 market_cap_usd = market_cap_usd' \<rparr>))))))"

subsection \<open>__init__ and the script\<close>

text \<open>
  \<open>__init__(rpc_url, mint, quote_decimals, total_supply)\<close>; \<open>env\<close> is the client made
  for \<open>rpc_url\<close>. \<open>not self.pool_id\<close> holds for \<open>None\<close> and for the empty string.
\<close>

definition init ::
  "'w env \<Rightarrow> string \<Rightarrow> nat \<Rightarrow> int option \<Rightarrow> ('w, PumpSwapMarketCap) io" where
  "init env mint quote_decimals' total_supply' =
     and_then (pure_step (pubkey_from_string env mint)) (\<lambda>mint_pubkey'.
     and_then (case total_supply' of
                 None \<Rightarrow> get_token_supply env mint_pubkey'
               | Some n \<Rightarrow> returns (IntV n)) (\<lambda>supply.
     and_then (fetch_pool_from_rpc env mint) (\<lambda>found.
     case found of
       None \<Rightarrow> raises (RuntimeError (''No pool found for mint '' @ mint))
     | Some pool \<Rightarrow>
         if pool = [] then raises (RuntimeError (''No pool found for mint '' @ mint))
         else
           and_then (fetch_pool_keys env pool) (\<lambda>fetched.
           case fetched of
             None \<Rightarrow> raises (RuntimeError (''Failed to fetch pool keys for '' @ pool))
           | Some keys \<Rightarrow>
               and_then (get_mint_decimals env mint_pubkey') (\<lambda>decimals.
                 returns \<lparr> mint_str = mint, mint_pubkey = mint_pubkey',
                           quote_decimals = quote_decimals', total_supply = supply,
                           pool_id = pool, pool_keys = keys,
                           token_decimals = decimals \<rparr>)))))"

text \<open>
  The script: build the object for a mint with the defaults, then compute. Nothing
  catches an exception of either step. The three printed lines show the record returned.
\<close>

definition main :: "'w env \<Rightarrow> string \<Rightarrow> ('w, MarketCapData) io" where
  "main env mint = and_then (init env mint 9 None) (\<lambda>pump_swap_mc. get_market_cap env pump_swap_mc)"

subsection \<open>Oracle responses the price fetch cannot use\<close>

text \<open>
  A response has the price field when its body is a JSON object with the key
  \<open>"Price"\<close>. The price fetch rejects a response with a client or server error
  status, and one without the field.
\<close>

definition has_price_field :: "response \<Rightarrow> bool" where
  "has_price_field resp =
     (case body resp of
        None \<Rightarrow> False
      | Some j \<Rightarrow> (case j of JObj kvs \<Rightarrow> map_of kvs ''Price'' \<noteq> None | _ \<Rightarrow> False))"

definition error_status :: "response \<Rightarrow> bool" where
  "error_status resp \<longleftrightarrow> 400 \<le> status_code resp \<and> status_code resp < 600"

definition oracle_unusable :: "'w env \<Rightarrow> 'w \<Rightarrow> bool" where
  "oracle_unusable env w =
     (case fst (requests_get env DIA_URL w) of
        Inl e \<Rightarrow> True
      | Inr resp \<Rightarrow> error_status resp \<or> \<not> has_price_field resp)"

section \<open>A concrete node and oracle\<close>

text \<open>
  A small world on which the program can be run: the state counts the remote calls made
  so far. The address made of 32 copies of the byte \<open>n\<close> has the one-letter text with
  code \<open>65 + n\<close>, so \<open>''B''\<close> is the address of byte 1. Token accounts answer from a
  table of balances indexed by their byte; pool accounts carry a record built with the
  layout.
\<close>

definition demo_key :: "nat \<Rightarrow> pubkey" where
  "demo_key n = replicate 32 (of_nat n)"

definition demo_from_string :: "string \<Rightarrow> error + pubkey" where
  "demo_from_string s =
     (case s of [c] \<Rightarrow> if 65 \<le> (of_char c :: nat) then Inr (demo_key (of_char c - 65)) else Inl ValueError
      | _ \<Rightarrow> Inl ValueError)"

definition demo_str :: "pubkey \<Rightarrow> string" where
  "demo_str k = (case k of [] \<Rightarrow> [] | b # _ \<Rightarrow> [char_of (65 + unat b)])"

definition demo_tag :: "pubkey \<Rightarrow> nat" where
  "demo_tag k = (case k of [] \<Rightarrow> 0 | b # _ \<Rightarrow> unat b)"

definition demo_record :: "nat \<Rightarrow> nat \<Rightarrow> pool_record" where
  "demo_record b q =
     \<lparr> d_pool_bump = 255, d_index = 513, d_creator = demo_key 30, d_base_mint = demo_key 1,
       d_quote_mint = demo_key 9, d_lp_mint = demo_key 31,
       d_pool_base_token_account = demo_key b, d_pool_quote_token_account = demo_key q,
       d_lp_supply = 1000000000000, d_coin_creator = demo_key 32 \<rparr>"

definition demo_pool :: "nat \<Rightarrow> nat \<Rightarrow> nat \<Rightarrow> keyed_account" where
  "demo_pool p b q =
     \<lparr> acct_pubkey = demo_key p,
       acct_data = build_pool_record (replicate 8 7) (demo_record b q) \<rparr>"

text \<open>
  Pools C, D and E answer the first filter set, F and G the second. E's base reserve
  account cannot be read.
\<close>

definition demo_pools :: "keyed_account list" where
  "demo_pools = [demo_pool 2 10 11, demo_pool 3 12 13, demo_pool 4 14 15,
                 demo_pool 5 16 17, demo_pool 6 18 19]"

definition demo_program_accounts :: "string \<Rightarrow> MemcmpOpts list \<Rightarrow> keyed_account list" where
  "demo_program_accounts mint fs =
     (case fs of
        [] \<Rightarrow> []
      | f # _ \<Rightarrow> if bytes f = mint then take 3 demo_pools else drop 3 demo_pools)"

definition demo_account_data :: "pubkey \<Rightarrow> error + byte list" where
  "demo_account_data k =
     (case filter (\<lambda>a. acct_pubkey a = k) demo_pools of
        [] \<Rightarrow> Inl (ClientError ''no such account'')
      | a # _ \<Rightarrow> Inr (acct_data a))"

definition demo_env ::
  "(nat \<Rightarrow> error + nat) \<Rightarrow> response \<Rightarrow> nat env" where
  "demo_env balance resp =
     \<lparr> pubkey_from_string = demo_from_string,
       pubkey_str = demo_str,
       float_of_str = (\<lambda>s. None),
       get_token_supply = (\<lambda>k w. (Inr (FloatV (Fin False 1000000)), Suc w)),
       get_program_accounts = (\<lambda>p fs w. (Inr (demo_program_accounts ''B'' fs), Suc w)),
       get_token_account_balance = (\<lambda>k w. (balance (demo_tag k), Suc w)),
       get_account_data = (\<lambda>k w. (demo_account_data k, Suc w)),
       get_mint_decimals = (\<lambda>k w. (Inr 9, Suc w)),
       get_multiple_accounts = (\<lambda>ks w. (Inr (map (\<lambda>k. balance (demo_tag k)) ks), Suc w)),
       requests_get = (\<lambda>url w. (Inr resp, Suc w)) \<rparr>"

text \<open>Balances: C holds 5 and 4, D holds 0 and 7, F holds 10 and 2, G holds 3 and 2.\<close>

definition demo_balances :: "nat \<Rightarrow> error + nat" where
  "demo_balances n =
     (if n = 10 then Inr 5 else if n = 11 then Inr 4
      else if n = 12 then Inr 0 else if n = 13 then Inr 7
      else if n = 14 then Inl (ClientError ''account not found'')
      else if n = 16 then Inr 10 else if n = 17 then Inr 2
      else if n = 18 then Inr 3 else if n = 19 then Inr 2
      else Inl (ClientError ''account not found''))"

definition empty_pools :: "nat \<Rightarrow> error + nat" where
  "empty_pools n = (if n = 11 then Inr 4 else Inr 0)"

definition price_response :: "int \<Rightarrow> response" where
  "price_response code =
     \<lparr> status_code = code, body = Some (JObj [(''Symbol'', JStr ''SOL''), (''Price'', JFloat (Fin False 100))]) \<rparr>"

definition no_price_response :: response where
  "no_price_response = \<lparr> status_code = 200, body = Some (JObj [(''Symbol'', JStr ''SOL'')]) \<rparr>"

definition demo_node :: "nat env" where
  "demo_node = demo_env demo_balances (price_response 200)"

text \<open>
  A node whose every query lists pool C, then an account of the program with only 170
  bytes of data, then pool F.
\<close>

definition short_account :: keyed_account where
  "short_account = \<lparr> acct_pubkey = demo_key 4, acct_data = take 170 (acct_data (demo_pool 4 14 15)) \<rparr>"

definition short_node :: "nat env" where
  "short_node =
     demo_node \<lparr> get_program_accounts :=
       (\<lambda>p fs w. (Inr [demo_pool 2 10 11, short_account, demo_pool 5 16 17], Suc w)) \<rparr>"

text \<open>The object of the specification's example, on pool C.\<close>

definition example_self :: PumpSwapMarketCap where
  "example_self =
     \<lparr> mint_str = ''B'', mint_pubkey = demo_key 1, quote_decimals = 9,
       total_supply = IntV 1000000, pool_id = ''C'',
       pool_keys = \<lparr> amm = demo_key 2, base_mint = demo_key 1, quote_mint = demo_key 9,
                     pool_base_token_account = demo_key 10,
                     pool_quote_token_account = demo_key 11, creator = demo_key 32 \<rparr>,
       token_decimals = 9 \<rparr>"

definition example_balances :: "nat \<Rightarrow> error + nat" where
  "example_balances n = (if n = 10 then Inr 1000000000 else Inr 2000000000)"

definition empty_balances :: "nat \<Rightarrow> error + nat" where
  "empty_balances n = (if n = 10 then Inr 0 else Inr 2000000000)"

section \<open>The pool locator\<close>

subsection \<open>The loops as a running maximum over the scored candidates\<close>

lemma scan_accounts_fold:
  "scan_accounts env accts st w =
     (case scored_accounts env accts w of
        (Inl e, w1) \<Rightarrow> (Inl e, w1)
      | (Inr cs, w1) \<Rightarrow> (Inr (foldl keep_best st cs), w1))"
proof (induction accts arbitrary: st w)
  case Nil
  then show ?case by simp
next
  case (Cons a accts)
  show ?case
  proof (cases "candidate_balances env a w")
    case (Pair r w1)
    show ?thesis
    proof (cases r)
      case (Inl e)
      with Pair show ?thesis by (simp add: Cons.IH)
    next
      case (Inr bals)
      obtain r2 w2 where rest: "scored_accounts env accts w1 = (r2, w2)"
        by (cases "scored_accounts env accts w1")
      with Pair Inr show ?thesis
        by (cases r2)
          (simp_all add: Cons.IH prepend_def and_then_def returns_def keep_best_def
            liquidity_def cand_id_def Let_def)
    qed
  qed
qed

lemma scan_filters_fold:
  "scan_filters env fs st w =
     (case scored_filters env fs w of
        (Inl e, w1) \<Rightarrow> (Inl e, w1)
      | (Inr cs, w1) \<Rightarrow> (Inr (foldl keep_best st cs), w1))"
proof (induction fs arbitrary: st w)
  case Nil
  then show ?case by simp
next
  case (Cons f fs)
  show ?case
  proof (cases "get_program_accounts env PF_AMM f w")
    case (Pair r w1)
    show ?thesis
    proof (cases r)
      case (Inl e)
      with Pair show ?thesis by (simp add: Cons.IH)
    next
      case (Inr accts)
      obtain r2 w2 where inner: "scored_accounts env accts w1 = (r2, w2)"
        by (cases "scored_accounts env accts w1")
      show ?thesis
      proof (cases r2)
        case (Inl e)
        with Pair Inr inner show ?thesis by (simp add: scan_accounts_fold)
      next
        case inner_ok: (Inr cs)
        obtain r3 w3 where outer: "scored_filters env fs w2 = (r3, w3)"
          by (cases "scored_filters env fs w2")
        with Pair Inr inner inner_ok show ?thesis
          by (cases r3)
            (simp_all add: scan_accounts_fold Cons.IH prepend_def and_then_def returns_def)
      qed
    qed
  qed
qed

lemma fetch_pool_from_rpc_fold:
  assumes "fetch_pool_from_rpc env mint w = (Inr best, w1)"
  shows "best = fst (foldl keep_best (None, 0) (scored_candidates env mint w))"
proof -
  obtain r w2 where sc: "scored_filters env (filters_list mint) w = (r, w2)"
    by (cases "scored_filters env (filters_list mint) w")
  with assms show ?thesis
    by (cases r)
      (simp_all add: fetch_pool_from_rpc_def scored_candidates_def scan_filters_fold
        and_then_def returns_def)
qed

text \<open>The locator raises only what its handlers do not catch.\<close>

lemma scored_accounts_raises: "scored_accounts env accts w = (Inl e, w1) \<Longrightarrow> \<not> caught e"
proof (induction accts arbitrary: w)
  case Nil
  then show ?case by simp
next
  case (Cons a accts)
  obtain r w2 where cb: "candidate_balances env a w = (r, w2)"
    by (cases "candidate_balances env a w")
  show ?case
  proof (cases r)
    case (Inl e')
    with Cons cb show ?thesis by (auto split: if_splits)
  next
    case (Inr bals)
    obtain r3 w3 where rest: "scored_accounts env accts w2 = (r3, w3)"
      by (cases "scored_accounts env accts w2")
    with Cons cb Inr show ?thesis
      by (cases r3) (auto simp: prepend_def and_then_def returns_def)
  qed
qed

lemma scored_filters_raises: "scored_filters env fs w = (Inl e, w1) \<Longrightarrow> \<not> caught e"
proof (induction fs arbitrary: w)
  case Nil
  then show ?case by simp
next
  case (Cons f fs)
  obtain r w2 where q: "get_program_accounts env PF_AMM f w = (r, w2)"
    by (cases "get_program_accounts env PF_AMM f w")
  show ?case
  proof (cases r)
    case (Inl e')
    with Cons q show ?thesis by (auto split: if_splits)
  next
    case (Inr accts)
    obtain r3 w3 where inner: "scored_accounts env accts w2 = (r3, w3)"
      by (cases "scored_accounts env accts w2")
    show ?thesis
    proof (cases r3)
      case (Inl e')
      with Cons.prems q Inr inner scored_accounts_raises [of env accts w2 e' w3]
      show ?thesis by simp
    next
      case inner_ok: (Inr cs)
      obtain r4 w4 where outer: "scored_filters env fs w3 = (r4, w4)"
        by (cases "scored_filters env fs w3")
      with Cons q Inr inner inner_ok show ?thesis
        by (cases r4) (auto simp: prepend_def and_then_def returns_def)
    qed
  qed
qed

lemma fetch_pool_from_rpc_raises:
  assumes "fetch_pool_from_rpc env mint w = (Inl e, w1)"
  shows "\<not> caught e"
proof -
  obtain r w2 where sc: "scored_filters env (filters_list mint) w = (r, w2)"
    by (cases "scored_filters env (filters_list mint) w")
  with assms scored_filters_raises [of env "filters_list mint" w e w2] show ?thesis
    by (cases r)
      (simp_all add: fetch_pool_from_rpc_def scan_filters_fold and_then_def returns_def)
qed

subsection \<open>What the running maximum ends with\<close>

text \<open>
  Either no candidate beat the starting score, or the list splits around the candidate
  kept: everything before it scored strictly less, nothing after it scored more.
\<close>

lemma keep_best_fold_cases:
  "(foldl keep_best (b, m) cs = (b, m) \<and> (\<forall>d \<in> set cs. liquidity d \<le> m)) \<or>
   (\<exists>pre c post. cs = pre @ c # post \<and>
      foldl keep_best (b, m) cs = (Some (cand_id c), liquidity c) \<and> m < liquidity c \<and>
      (\<forall>d \<in> set pre. liquidity d < liquidity c) \<and>
      (\<forall>d \<in> set post. liquidity d \<le> liquidity c))"
  (is "?same cs \<or> (\<exists>pre c post. ?split cs pre c post)")
proof (induction cs rule: rev_induct)
  case Nil
  then show ?case by simp
next
  case (snoc x xs)
  from snoc.IH show ?case
  proof (elim disjE exE conjE)
    assume same: "foldl keep_best (b, m) xs = (b, m)"
      and le: "\<forall>d \<in> set xs. liquidity d \<le> m"
    show ?thesis
    proof (cases "m < liquidity x")
      case True
      have "foldl keep_best (b, m) (xs @ [x]) = (Some (cand_id x), liquidity x)"
        using same True by (simp add: keep_best_def)
      moreover have "\<forall>d \<in> set xs. liquidity d < liquidity x"
        using le True by fastforce
      ultimately have "?split (xs @ [x]) xs x []"
        using True by simp
      then show ?thesis by (intro disjI2 exI)
    next
      case False
      then have "foldl keep_best (b, m) (xs @ [x]) = (b, m)"
        using same by (simp add: keep_best_def)
      moreover have "\<forall>d \<in> set (xs @ [x]). liquidity d \<le> m"
        using le False by auto
      ultimately show ?thesis by (intro disjI1 conjI)
    qed
  next
    fix pre c post
    assume split: "xs = pre @ c # post"
      and res: "foldl keep_best (b, m) xs = (Some (cand_id c), liquidity c)"
      and gt: "m < liquidity c"
      and before: "\<forall>d \<in> set pre. liquidity d < liquidity c"
      and after: "\<forall>d \<in> set post. liquidity d \<le> liquidity c"
    show ?thesis
    proof (cases "liquidity c < liquidity x")
      case True
      have "foldl keep_best (b, m) (xs @ [x]) = (Some (cand_id x), liquidity x)"
        using res True by (simp add: keep_best_def)
      moreover have "\<forall>d \<in> set xs. liquidity d < liquidity x"
        using split before after True by fastforce
      moreover have "m < liquidity x" using gt True by simp
      ultimately have "?split (xs @ [x]) xs x []"
        by simp
      then show ?thesis by (intro disjI2 exI)
    next
      case False
      have "foldl keep_best (b, m) (xs @ [x]) = (Some (cand_id c), liquidity c)"
        using res False by (simp add: keep_best_def)
      moreover have "\<forall>d \<in> set (post @ [x]). liquidity d \<le> liquidity c"
        using after False by auto
      ultimately have "?split (xs @ [x]) pre c (post @ [x])"
        using split gt before by simp
      then show ?thesis by (intro disjI2 exI)
    qed
  qed
qed

lemma keep_best_from_start_Some:
  assumes "fst (foldl keep_best (None, 0) cs) = Some p"
  shows "\<exists>pre c post. cs = pre @ c # post \<and> cand_id c = p \<and> 0 < liquidity c \<and>
           (\<forall>d \<in> set pre. liquidity d < liquidity c) \<and>
           (\<forall>d \<in> set post. liquidity d \<le> liquidity c)"
proof -
  from keep_best_fold_cases [of None 0 cs] show ?thesis
  proof (elim disjE exE conjE)
    assume "foldl keep_best (None, 0) cs = (None, 0)"
    with assms show ?thesis by simp
  next
    fix pre c post
    assume "cs = pre @ c # post"
      and res: "foldl keep_best (None, 0) cs = (Some (cand_id c), liquidity c)"
      and "0 < liquidity c"
      and "\<forall>d \<in> set pre. liquidity d < liquidity c"
      and "\<forall>d \<in> set post. liquidity d \<le> liquidity c"
    moreover from res assms have "cand_id c = p" by simp
    ultimately show ?thesis by blast
  qed
qed

lemma keep_best_from_start_None:
  assumes "fst (foldl keep_best (None, 0) cs) = None"
  shows "\<forall>d \<in> set cs. liquidity d = 0"
proof -
  from keep_best_fold_cases [of None 0 cs] show ?thesis
  proof (elim disjE exE conjE)
    assume "\<forall>d \<in> set cs. liquidity d \<le> 0"
    then show ?thesis by simp
  next
    fix pre c post
    assume "foldl keep_best (None, 0) cs = (Some (cand_id c), liquidity c)"
    with assms show ?thesis by simp
  qed
qed

lemma keep_best_from_start_positive:
  assumes "c \<in> set cs" and "0 < liquidity c"
  shows "\<exists>p. fst (foldl keep_best (None, 0) cs) = Some p"
proof (cases "fst (foldl keep_best (None, 0) cs)")
  case None
  then have "liquidity c = 0" using keep_best_from_start_None assms(1) by blast
  with assms(2) show ?thesis by simp
next
  case (Some p)
  then show ?thesis by blast
qed

subsection \<open>The concrete node\<close>

text \<open>
  On the concrete node pool E is passed over, C and F tie at 20, and the locator answers
  C after two queries and nine balance reads.
\<close>

lemma demo_node_candidates:
  "scored_candidates demo_node ''B'' 0 =
     [(''C'', 5, 4), (''D'', 0, 7), (''F'', 10, 2), (''G'', 3, 2)]"
  by code_simp

lemma demo_node_fetch: "fetch_pool_from_rpc demo_node ''B'' 0 = (Inr (Some ''C''), 11)"
  by code_simp

text \<open>On the node of empty pools every candidate scores 0 and the locator finds nothing.\<close>

lemma empty_pools_candidates:
  "scored_candidates (demo_env empty_pools (price_response 200)) ''B'' 0 =
     [(''C'', 0, 4), (''D'', 0, 0), (''E'', 0, 0), (''F'', 0, 0), (''G'', 0, 0)]"
  by code_simp

lemma empty_pools_fetch:
  "fetch_pool_from_rpc (demo_env empty_pools (price_response 200)) ''B'' 0 = (Inr None, 12)"
  by code_simp

subsection \<open>The pool returned has the greatest liquidity\<close>

text \<open>
  C2. Over the candidates a run that returns scores successfully, across both filter
  sets: a pool the locator returns is one of them and no candidate has a greater liquidity (the product
  of its two balances); and whenever one candidate scores less than another, the
  locator returns a pool, whose liquidity is at least the greater score.
\<close>

theorem locator_returns_maximum_liquidity:
  assumes "fetch_pool_from_rpc env mint w = (Inr best, w1)"
  shows "(\<forall>p. best = Some p \<longrightarrow>
            (\<exists>c \<in> set (scored_candidates env mint w). cand_id c = p \<and>
               (\<forall>d \<in> set (scored_candidates env mint w). liquidity d \<le> liquidity c))) \<and>
         (\<forall>c1 \<in> set (scored_candidates env mint w).
          \<forall>c2 \<in> set (scored_candidates env mint w).
            liquidity c1 < liquidity c2 \<longrightarrow>
              (\<exists>c \<in> set (scored_candidates env mint w).
                 best = Some (cand_id c) \<and> liquidity c2 \<le> liquidity c))"
proof -
  let ?cs = "scored_candidates env mint w"
  have best: "best = fst (foldl keep_best (None, 0) ?cs)"
    using assms by (rule fetch_pool_from_rpc_fold)
  have max: "\<exists>c \<in> set ?cs. cand_id c = p \<and> (\<forall>d \<in> set ?cs. liquidity d \<le> liquidity c)"
    if "best = Some p" for p
  proof -
    from that best have "fst (foldl keep_best (None, 0) ?cs) = Some p" by simp
    from keep_best_from_start_Some [OF this]
    obtain pre c post where cs: "?cs = pre @ c # post" and p: "cand_id c = p"
      and before: "\<forall>d \<in> set pre. liquidity d < liquidity c"
      and after: "\<forall>d \<in> set post. liquidity d \<le> liquidity c"
      by blast
    have "c \<in> set ?cs" using cs by simp
    moreover have "\<forall>d \<in> set ?cs. liquidity d \<le> liquidity c"
      using before after by (simp add: cs ball_Un) (use less_imp_le in blast)
    ultimately show ?thesis using p by blast
  qed
  have pref: "\<exists>c \<in> set ?cs. best = Some (cand_id c) \<and> liquidity c2 \<le> liquidity c"
    if "c1 \<in> set ?cs" "c2 \<in> set ?cs" "liquidity c1 < liquidity c2" for c1 c2
  proof -
    from that have "0 < liquidity c2" by simp
    from keep_best_from_start_positive [OF that(2) this] best
    obtain p where "best = Some p" by auto
    from max [OF this] \<open>best = Some p\<close> that(2) show ?thesis by blast
  qed
  from max pref show ?thesis by blast
qed

theorem locator_returns_maximum_liquidity_witness:
  "fetch_pool_from_rpc demo_node ''B'' 0 = (Inr (Some ''C''), 11) \<and>
   (\<exists>c \<in> set (scored_candidates demo_node ''B'' 0). cand_id c = ''C'' \<and>
      (\<forall>d \<in> set (scored_candidates demo_node ''B'' 0). liquidity d \<le> liquidity c)) \<and>
   (\<exists>c \<in> set (scored_candidates demo_node ''B'' 0).
      Some ''C'' = Some (cand_id c) \<and> liquidity (''F'', 10, 2) \<le> liquidity c)"
proof -
  note run = demo_node_fetch and cs = demo_node_candidates
  have "(''G'', 3, 2) \<in> set (scored_candidates demo_node ''B'' 0)"
    and "(''F'', 10, 2) \<in> set (scored_candidates demo_node ''B'' 0)"
    and "liquidity (''G'', 3, 2) < liquidity (''F'', 10, 2)"
    by (simp_all add: cs liquidity_def)
  with locator_returns_maximum_liquidity [OF run] run show ?thesis
    by blast
qed

subsection \<open>Ties keep the first maximum, when it is positive\<close>

text \<open>
  C3, as the code has it. In a run of the locator that returns: when some scored
  candidate has a positive liquidity, the pool returned is the first candidate met that
  attains the maximum (every candidate before it scored strictly less, none after it
  scored more), so among candidates tied at a positive maximum the first one met is
  selected; when every scored candidate has liquidity 0, none is selected.
\<close>

theorem locator_keeps_first_positive_maximum:
  assumes "fetch_pool_from_rpc env mint w = (Inr best, w1)"
  shows "((\<exists>c \<in> set (scored_candidates env mint w). 0 < liquidity c) \<longrightarrow>
            (\<exists>pre c post. scored_candidates env mint w = pre @ c # post \<and>
               best = Some (cand_id c) \<and>
               (\<forall>d \<in> set pre. liquidity d < liquidity c) \<and>
               (\<forall>d \<in> set post. liquidity d \<le> liquidity c))) \<and>
         ((\<forall>c \<in> set (scored_candidates env mint w). liquidity c = 0) \<longrightarrow> best = None)"
proof -
  let ?cs = "scored_candidates env mint w"
  have best: "best = fst (foldl keep_best (None, 0) ?cs)"
    using assms by (rule fetch_pool_from_rpc_fold)
  have first: "\<exists>pre c post. ?cs = pre @ c # post \<and> best = Some (cand_id c) \<and>
      (\<forall>d \<in> set pre. liquidity d < liquidity c) \<and>
      (\<forall>d \<in> set post. liquidity d \<le> liquidity c)"
    if "\<exists>c \<in> set ?cs. 0 < liquidity c"
  proof -
    from that obtain c0 where "c0 \<in> set ?cs" and "0 < liquidity c0" by blast
    from keep_best_from_start_positive [OF this] best
    obtain p where p: "fst (foldl keep_best (None, 0) ?cs) = Some p" and bp: "best = Some p"
      by auto
    from keep_best_from_start_Some [OF p]
    obtain pre c post where "?cs = pre @ c # post" and "cand_id c = p"
      and "\<forall>d \<in> set pre. liquidity d < liquidity c"
      and "\<forall>d \<in> set post. liquidity d \<le> liquidity c"
      by blast
    with bp have "?cs = pre @ c # post \<and> best = Some (cand_id c) \<and>
      (\<forall>d \<in> set pre. liquidity d < liquidity c) \<and>
      (\<forall>d \<in> set post. liquidity d \<le> liquidity c)"
      by simp
    then show ?thesis by (intro exI)
  qed
  have none: "best = None" if zero: "\<forall>c \<in> set ?cs. liquidity c = 0"
  proof (cases best)
    case None
    then show ?thesis .
  next
    case (Some p)
    with best have "fst (foldl keep_best (None, 0) ?cs) = Some p" by simp
    from keep_best_from_start_Some [OF this]
    obtain pre c post where "?cs = pre @ c # post" and "0 < liquidity c" by blast
    then have "c \<in> set ?cs" and "0 < liquidity c" by simp_all
    with zero show ?thesis by force
  qed
  from first none show ?thesis by blast
qed

theorem locator_keeps_first_positive_maximum_witness:
  "fetch_pool_from_rpc demo_node ''B'' 0 = (Inr (Some ''C''), 11) \<and>
   liquidity (''C'', 5, 4) = liquidity (''F'', 10, 2) \<and>
   (\<exists>pre c post. [(''C'', 5, 4), (''D'', 0, 7), (''F'', 10, 2), (''G'', 3, 2)] = pre @ c # post \<and>
      Some ''C'' = Some (cand_id c) \<and> (\<forall>d \<in> set pre. liquidity d < liquidity c) \<and>
      (\<forall>d \<in> set post. liquidity d \<le> liquidity c))"
proof -
  have "(''C'', 5, 4) \<in> set (scored_candidates demo_node ''B'' 0)"
    and "0 < liquidity (''C'', 5, 4)"
    by (simp_all add: demo_node_candidates liquidity_def)
  then have "\<exists>c \<in> set (scored_candidates demo_node ''B'' 0). 0 < liquidity c"
    by blast
  with locator_keeps_first_positive_maximum [OF demo_node_fetch] demo_node_fetch
  show ?thesis
    by (simp add: demo_node_candidates liquidity_def)
qed

text \<open>
  The claim as the specification words it fails at a tie at 0: on the node of empty
  pools the five candidates tie at the maximum, 0, and the first of them is not
  selected. The locator finds nothing.
\<close>

theorem zero_tie_counterexample:
  "scored_candidates (demo_env empty_pools (price_response 200)) ''B'' 0 =
     [(''C'', 0, 4), (''D'', 0, 0), (''E'', 0, 0), (''F'', 0, 0), (''G'', 0, 0)] \<and>
   liquidity (''C'', 0, 4) = 0 \<and> liquidity (''D'', 0, 0) = 0 \<and>
   fetch_pool_from_rpc (demo_env empty_pools (price_response 200)) ''B'' 0 = (Inr None, 12)"
  using empty_pools_candidates empty_pools_fetch by (simp add: liquidity_def)

subsection \<open>No pool of zero liquidity\<close>

text \<open>
  C10. The running maximum starts at 0 and a candidate replaces the best only with a
  strictly greater product. So when every scored candidate has a zero balance on one
  side the locator finds nothing, and a pool it returns was scored with both balances
  strictly positive.
\<close>

theorem locator_never_selects_zero_liquidity:
  assumes "fetch_pool_from_rpc env mint w = (Inr best, w1)"
  shows "((\<forall>c \<in> set (scored_candidates env mint w). bal_base c = 0 \<or> bal_quote c = 0)
            \<longrightarrow> best = None) \<and>
         (\<forall>p. best = Some p \<longrightarrow>
            (\<exists>c \<in> set (scored_candidates env mint w).
               cand_id c = p \<and> 0 < bal_base c \<and> 0 < bal_quote c))"
proof -
  let ?cs = "scored_candidates env mint w"
  have best: "best = fst (foldl keep_best (None, 0) ?cs)"
    using assms by (rule fetch_pool_from_rpc_fold)
  have pos: "\<exists>c \<in> set ?cs. cand_id c = p \<and> 0 < bal_base c \<and> 0 < bal_quote c"
    if "best = Some p" for p
  proof -
    from that best have "fst (foldl keep_best (None, 0) ?cs) = Some p" by simp
    from keep_best_from_start_Some [OF this]
    obtain pre c post where cs: "?cs = pre @ c # post" and p: "cand_id c = p"
      and liq: "0 < liquidity c"
      by blast
    have "c \<in> set ?cs" using cs by simp
    moreover have "0 < bal_base c \<and> 0 < bal_quote c"
      using liq by (simp add: liquidity_def bal_base_def bal_quote_def)
    ultimately show ?thesis using p by blast
  qed
  have none: "best = None" if zero: "\<forall>c \<in> set ?cs. bal_base c = 0 \<or> bal_quote c = 0"
  proof (cases best)
    case None
    then show ?thesis .
  next
    case (Some p)
    from pos [OF this] zero show ?thesis by force
  qed
  from pos none show ?thesis by blast
qed

theorem locator_never_selects_zero_liquidity_witness:
  "fetch_pool_from_rpc (demo_env empty_pools (price_response 200)) ''B'' 0 = (Inr None, 12) \<and>
   scored_candidates (demo_env empty_pools (price_response 200)) ''B'' 0 =
     [(''C'', 0, 4), (''D'', 0, 0), (''E'', 0, 0), (''F'', 0, 0), (''G'', 0, 0)] \<and>
   fetch_pool_from_rpc demo_node ''B'' 0 = (Inr (Some ''C''), 11) \<and>
   (\<exists>c \<in> set (scored_candidates demo_node ''B'' 0).
      cand_id c = ''C'' \<and> 0 < bal_base c \<and> 0 < bal_quote c)"
  using locator_never_selects_zero_liquidity [OF empty_pools_fetch]
    locator_never_selects_zero_liquidity [OF demo_node_fetch]
    empty_pools_fetch empty_pools_candidates demo_node_fetch
  by simp

subsection \<open>A candidate whose scoring raises\<close>

lemma scan_accounts_append:
  "scan_accounts env (xs @ ys) st w =
     (case scan_accounts env xs st w of
        (Inl e, w1) \<Rightarrow> (Inl e, w1)
      | (Inr st1, w1) \<Rightarrow> scan_accounts env ys st1 w1)"
proof (induction xs arbitrary: st w)
  case Nil
  then show ?case by simp
next
  case (Cons a xs)
  show ?case
  proof (cases "candidate_balances env a w")
    case (Pair r w1)
    then show ?thesis
      by (cases r) (simp_all add: Cons.IH Let_def)
  qed
qed

text \<open>
  The ways scoring a candidate raises. Account data too short to hold an address at one
  of the two offsets makes \<open>Pubkey.from_bytes\<close> panic, before any balance is read. A
  balance read that raises is the other way; the second balance is read only after the
  first has answered.
\<close>

lemma candidate_balances_short_data:
  "length (acct_data acct) < 203 \<Longrightarrow> candidate_balances env acct w = (Inl PanicException, w)"
  by (auto simp: candidate_balances_def and_then_def pure_step_def from_bytes_def slice_def Let_def)

lemma candidate_balances_base_raises:
  assumes "203 \<le> length (acct_data acct)"
    and "get_token_account_balance env (slice 139 171 (acct_data acct)) w = (Inl e, w1)"
  shows "candidate_balances env acct w = (Inl e, w1)"
  using assms
  by (simp add: candidate_balances_def and_then_def pure_step_def from_bytes_def slice_def Let_def)

lemma candidate_balances_quote_raises:
  assumes "203 \<le> length (acct_data acct)"
    and "get_token_account_balance env (slice 139 171 (acct_data acct)) w = (Inr bb, w1)"
    and "get_token_account_balance env (slice 171 203 (acct_data acct)) w1 = (Inl e, w2)"
  shows "candidate_balances env acct w = (Inl e, w2)"
  using assms
  by (simp add: candidate_balances_def and_then_def pure_step_def from_bytes_def slice_def Let_def)

text \<open>
  An exception the handler catches: the loop goes on with the candidates after the
  failed one, from the best pool and the maximum it had before and from the state of
  the node the one failed attempt left.
\<close>

lemma caught_failure_is_skipped:
  assumes "scan_accounts env pre st w = (Inr st1, w1)"
    and "candidate_balances env acct w1 = (Inl e, w2)"
    and "caught e"
  shows "scan_accounts env (pre @ acct # post) st w = scan_accounts env post st1 w2"
  using assms by (simp add: scan_accounts_append)

text \<open>An exception the handler does not catch ends the search with that exception.\<close>

lemma uncaught_failure_ends_scan:
  assumes "scan_accounts env pre st w = (Inr st1, w1)"
    and "candidate_balances env acct w1 = (Inl e, w2)"
    and "\<not> caught e"
  shows "scan_accounts env (pre @ acct # post) st w = (Inl e, w2)"
  using assms by (simp add: scan_accounts_append)

lemma skipped_on_demo_node:
  "candidate_balances demo_node (demo_pool 4 14 15) 4 = (Inl (ClientError ''account not found''), 5) \<and>
   scan_accounts demo_node demo_pools (None, 0) 0 = (Inr (Some ''C'', 20), 9)"
  by code_simp

text \<open>
  C8. The claim holds of a failed balance read, and fails where it names the extraction
  of the embedded addresses: an account of the program with 170 bytes of data gives a
  31-byte slice at offset 139, \<open>Pubkey.from_bytes\<close> panics, \<open>except Exception\<close> does not
  catch the panic, and the panic leaves the locator and \<open>__init__\<close>. Pool F, listed after
  the short account, is never scored.
\<close>

theorem short_account_ends_search:
  "length (slice 139 171 (acct_data short_account)) = 31 \<and>
   candidate_balances short_node short_account 3 = (Inl PanicException, 3) \<and>
   fetch_pool_from_rpc short_node ''B'' 0 = (Inl PanicException, 3) \<and>
   init short_node ''B'' 9 None 0 = (Inl PanicException, 4)"
  by code_simp

section \<open>The binary pool record\<close>

lemma length_le_bytes: "length (le_bytes n v) = n"
  by (induction n arbitrary: v) simp_all

lemma le_value_le_bytes:
  "0 \<le> v \<Longrightarrow> v < 256 ^ n \<Longrightarrow> le_value (le_bytes n v) = v"
proof (induction n arbitrary: v)
  case 0
  then show ?case by simp
next
  case (Suc n)
  have "0 \<le> v div 256" using Suc.prems(1) by simp
  moreover have "v div 256 < 256 ^ n" using Suc.prems by (simp add: div_less_iff_less_mult mult.commute)
  ultimately have "le_value (le_bytes n (v div 256)) = v div 256" by (rule Suc.IH)
  moreover have "uint (word_of_int (v mod 256) :: byte) = v mod 256"
    by (simp add: uint_word_of_int take_bit_eq_mod)
  ultimately show ?case by simp
qed

lemma read_bytes_append: "length xs = n \<Longrightarrow> read_bytes n (xs @ ys) = Inr (xs, ys)"
  by (simp add: read_bytes_def)

lemma Padding_append: "length pad = n \<Longrightarrow> then_parse (Padding n (pad @ ys)) k = k () ys"
  by (simp add: Padding_def read_bytes_append then_parse_def)

lemma Bytes_append: "length xs = n \<Longrightarrow> then_parse (Bytes n (xs @ ys)) k = k xs ys"
  by (simp add: Bytes_def read_bytes_append then_parse_def)

lemma Int8ul_Cons: "then_parse (Int8ul ([b] @ ys)) k = k b ys"
  by (simp add: Int8ul_def read_bytes_def then_parse_def)

lemma Int16ul_append: "then_parse (Int16ul (le_bytes 2 (uint v) @ ys)) k = k v ys"
proof -
  have "uint v < 256 ^ 2" using uint_lt2p [of v] by simp
  then have "le_value (le_bytes 2 (uint v)) = uint v"
    by (intro le_value_le_bytes) simp_all
  then show ?thesis
    by (simp add: Int16ul_def read_bytes_append length_le_bytes then_parse_def)
qed

lemma Int64ul_append: "then_parse (Int64ul (le_bytes 8 (uint v) @ ys)) k = k v ys"
proof -
  have "uint v < 256 ^ 8" using uint_lt2p [of v] by simp
  then have "le_value (le_bytes 8 (uint v)) = uint v"
    by (intro le_value_le_bytes) simp_all
  then show ?thesis
    by (simp add: Int64ul_def read_bytes_append length_le_bytes then_parse_def)
qed

text \<open>
  C4. A buffer built by placing a record's fields at the layout's offsets (any 8 bytes
  first, then the bump, the little-endian index, the six addresses, the little-endian
  supply and the coin creator, each address 32 bytes long) decodes to exactly that
  record, whatever bytes follow it.
\<close>

theorem POOL_LAYOUT_round_trip:
  assumes "length pad = 8" and "well_sized r"
  shows "POOL_LAYOUT_parse (build_pool_record pad r @ rest) = Inr r"
  using assms
  by (simp add: POOL_LAYOUT_parse_def build_pool_record_def well_sized_def
      Padding_append Int8ul_Cons Int16ul_append Bytes_append Int64ul_append
      del: append_Cons append_Nil)

theorem POOL_LAYOUT_round_trip_witness:
  "length (replicate 8 (7 :: byte)) = 8 \<and> well_sized (demo_record 10 11) \<and>
   POOL_LAYOUT_parse (build_pool_record (replicate 8 7) (demo_record 10 11) @ [1, 2, 3]) =
     Inr (demo_record 10 11)"
proof -
  have pad: "length (replicate 8 (7 :: byte)) = 8" by simp
  have sized: "well_sized (demo_record 10 11)"
    by (simp add: well_sized_def demo_record_def demo_key_def)
  from POOL_LAYOUT_round_trip [OF pad sized, of "[1, 2, 3]"] pad sized
  show ?thesis by (intro conjI)
qed

text \<open>
  The keys taken from a decoded record, and the two addresses the locator cuts out of
  the raw bytes, are the fields the layout puts there.
\<close>

lemma decode_pool_keys_build:
  assumes "length pad = 8" and "well_sized r"
  shows "decode_pool_keys k (build_pool_record pad r @ rest) =
           Inr \<lparr> amm = k, base_mint = d_base_mint r, quote_mint = d_quote_mint r,
                 pool_base_token_account = d_pool_base_token_account r,
                 pool_quote_token_account = d_pool_quote_token_account r,
                 creator = d_coin_creator r \<rparr>"
  using assms
  by (simp add: decode_pool_keys_def or_raise_def from_bytes_def
      POOL_LAYOUT_parse_def build_pool_record_def well_sized_def
      Padding_append Int8ul_Cons Int16ul_append Bytes_append Int64ul_append
      del: append_Cons append_Nil)

lemma locator_offsets_build:
  assumes "length pad = 8" and "well_sized r"
  shows "slice 139 171 (build_pool_record pad r @ rest) = d_pool_base_token_account r"
    and "slice 171 203 (build_pool_record pad r @ rest) = d_pool_quote_token_account r"
  using assms
  by (simp_all add: slice_def build_pool_record_def well_sized_def length_le_bytes)

section \<open>The market-cap calculator\<close>

text \<open>
  The computation once the reserves are read: the scaling of the two amounts and their
  quotient come first, the oracle is asked only after them.
\<close>

lemma get_market_cap_after_reserves:
  assumes "get_pool_reserves env (pool_keys self) w = (Inr (base_reserve, quote_reserve), w1)"
  shows "get_market_cap env self w =
     (case int_truediv (int base_reserve) (10 ^ token_decimals self) of
        Inl e \<Rightarrow> (Inl e, w1)
      | Inr token_amt \<Rightarrow>
     (case int_truediv (int quote_reserve) (10 ^ quote_decimals self) of
        Inl e \<Rightarrow> (Inl e, w1)
      | Inr sol_amt \<Rightarrow>
     (case float_div sol_amt token_amt of
        Inl e \<Rightarrow> (Inl e, w1)
      | Inr price_sol \<Rightarrow>
     (case get_sol_price_usd env w1 of
        (Inl e, w2) \<Rightarrow> (Inl e, w2)
      | (Inr sol_usd, w2) \<Rightarrow>
     (case float_mul_val (float_mul price_sol sol_usd) (total_supply self) of
        Inl e \<Rightarrow> (Inl e, w2)
      | Inr cap \<Rightarrow>
          (Inr \<lparr> token_price_sol = price_sol,
                 token_price_usd = float_mul price_sol sol_usd,
                 market_cap_usd = cap \<rparr>, w2))))))"
  using assms
  by (simp add: get_market_cap_def and_then_def pure_step_def returns_def Let_def
      split: sum.splits prod.splits)

text \<open>The arithmetic of the specification's example, step by step.\<close>

lemma example_token_amt: "int_truediv 1000000000 1000000000 = Inr (Fin False 1)"
  by code_simp

lemma example_sol_amt: "int_truediv 2000000000 1000000000 = Inr (Fin False 2)"
  by code_simp

lemma example_price_sol: "float_div (Fin False 2) (Fin False 1) = Inr (Fin False 2)"
  by code_simp

lemma example_price_usd: "float_mul (Fin False 2) (Fin False 100) = Fin False 200"
  by code_simp

lemma example_cap_int: "float_mul_val (Fin False 200) (IntV 1000000) = Inr (Fin False 200000000)"
  by code_simp

lemma example_cap_float:
  "float_mul_val (Fin False 200) (FloatV (Fin False 1000000)) = Inr (Fin False 200000000)"
  by code_simp

text \<open>The concrete node's answers to the reserve read and to the oracle request.\<close>

lemma demo_tag_keys: "demo_tag (demo_key 10) = 10" "demo_tag (demo_key 11) = 11"
  by code_simp+

lemma demo_reserves:
  "get_pool_reserves (demo_env balance resp) (pool_keys example_self) w =
     (or_raise (balance 10) (\<lambda>base_amt.
      or_raise (balance 11) (\<lambda>quote_amt. Inr (base_amt, quote_amt))), Suc w)"
  by (simp add: get_pool_reserves_def demo_env_def example_self_def and_then_def pure_step_def
      or_raise_def list_getitem_def demo_tag_keys split: sum.splits)

lemma demo_price:
  "\<not> (400 \<le> code \<and> code < 600) \<Longrightarrow>
   get_sol_price_usd (demo_env balance (price_response code)) w = (Inr (Fin False 100), Suc w)"
  by (simp add: get_sol_price_usd_def demo_env_def price_response_def and_then_def pure_step_def
      or_raise_def raise_for_status_def response_json_def)

text \<open>
  C5. With reserves 1_000_000_000 and 2_000_000_000, 9 decimals on both sides, an
  oracle price of 100.0 and a supply of 1_000_000 (given as an int, or as the float the
  supply lookup returns), the result is 2.0, 200.0 and 200_000_000.0.
\<close>

theorem get_market_cap_example:
  assumes "get_pool_reserves env (pool_keys self) w = (Inr (1000000000, 2000000000), w1)"
    and "token_decimals self = 9" and "quote_decimals self = 9"
    and "get_sol_price_usd env w1 = (Inr (Fin False 100), w2)"
    and "total_supply self = IntV 1000000 \<or> total_supply self = FloatV (Fin False 1000000)"
  shows "get_market_cap env self w =
           (Inr \<lparr> token_price_sol = Fin False 2, token_price_usd = Fin False 200,
                  market_cap_usd = Fin False 200000000 \<rparr>, w2)"
proof -
  have "float_mul_val (Fin False 200) (total_supply self) = Inr (Fin False 200000000)"
    using assms(5) example_cap_int example_cap_float by auto
  then show ?thesis
    by (simp add: get_market_cap_after_reserves [OF assms(1)] assms(2-4) example_token_amt
        example_sol_amt example_price_sol example_price_usd)
qed

theorem get_market_cap_example_witness:
  "get_market_cap (demo_env example_balances (price_response 200)) example_self 0 =
     (Inr \<lparr> token_price_sol = Fin False 2, token_price_usd = Fin False 200,
            market_cap_usd = Fin False 200000000 \<rparr>, 2)"
proof -
  let ?env = "demo_env example_balances (price_response 200)"
  have reserves: "get_pool_reserves ?env (pool_keys example_self) 0 =
      (Inr (1000000000, 2000000000), 1)"
    by (simp add: demo_reserves example_balances_def or_raise_def)
  have td: "token_decimals example_self = 9" and qd: "quote_decimals example_self = 9"
    by (simp_all add: example_self_def)
  have price: "get_sol_price_usd ?env 1 = (Inr (Fin False 100), 2)"
    by (simp add: demo_price)
  have ts: "total_supply example_self = IntV 1000000 \<or>
      total_supply example_self = FloatV (Fin False 1000000)"
    by (simp add: example_self_def)
  from get_market_cap_example [OF reserves td qd price ts] show ?thesis .
qed

subsection \<open>The result depends on six values only\<close>

text \<open>
  C6. Two invocations, on any two nodes and objects, that read the same two reserves,
  hold the same two decimal counts and the same supply, and are given the same price by
  the oracle, return the same outcome: the same three floats, or the same exception.
\<close>

theorem get_market_cap_depends_on_six_values:
  assumes "get_pool_reserves env (pool_keys self) w = (Inr (base_reserve, quote_reserve), w1)"
    and "get_pool_reserves env' (pool_keys self') w' = (Inr (base_reserve, quote_reserve), w1')"
    and "token_decimals self' = token_decimals self"
    and "quote_decimals self' = quote_decimals self"
    and "total_supply self' = total_supply self"
    and "fst (get_sol_price_usd env w1) = Inr oracle_price"
    and "fst (get_sol_price_usd env' w1') = Inr oracle_price"
  shows "fst (get_market_cap env' self' w') = fst (get_market_cap env self w)"
proof -
  obtain w2 where p: "get_sol_price_usd env w1 = (Inr oracle_price, w2)"
    using assms(6) by (cases "get_sol_price_usd env w1") simp
  obtain w2' where p': "get_sol_price_usd env' w1' = (Inr oracle_price, w2')"
    using assms(7) by (cases "get_sol_price_usd env' w1'") simp
  show ?thesis
    by (simp add: get_market_cap_after_reserves [OF assms(1)]
        get_market_cap_after_reserves [OF assms(2)] assms(3-5) p p' split: sum.splits)
qed

theorem get_market_cap_depends_on_six_values_witness:
  "fst (get_market_cap (demo_env example_balances (price_response 203))
          (example_self \<lparr> mint_str := ''Z'', pool_id := ''F'' \<rparr>) 7) =
   fst (get_market_cap (demo_env example_balances (price_response 200)) example_self 0)"
proof -
  let ?env = "demo_env example_balances (price_response 200)"
  let ?env' = "demo_env example_balances (price_response 203)"
  let ?self' = "example_self \<lparr> mint_str := ''Z'', pool_id := ''F'' \<rparr>"
  have r: "get_pool_reserves ?env (pool_keys example_self) 0 = (Inr (1000000000, 2000000000), 1)"
    by (simp add: demo_reserves example_balances_def or_raise_def)
  have r': "get_pool_reserves ?env' (pool_keys ?self') 7 = (Inr (1000000000, 2000000000), 8)"
    by (simp add: demo_reserves example_balances_def or_raise_def)
  have td: "token_decimals ?self' = token_decimals example_self"
    and qd: "quote_decimals ?self' = quote_decimals example_self"
    and ts: "total_supply ?self' = total_supply example_self"
    by simp_all
  have p: "fst (get_sol_price_usd ?env 1) = Inr (Fin False 100)"
    and p': "fst (get_sol_price_usd ?env' 8) = Inr (Fin False 100)"
    by (simp_all add: demo_price)
  from get_market_cap_depends_on_six_values [OF r r' td qd ts p p'] show ?thesis .
qed

subsection \<open>An empty base reserve\<close>

lemma zero_reserve_token_amt: "int_truediv (int 0) (10 ^ n) = Inr (Fin False 0)"
  by (simp add: int_truediv_def round_binary64_def)

lemma float_div_by_zero: "is_zero y \<Longrightarrow> float_div x y = Inl ZeroDivisionError"
  by (cases y) (simp_all add: is_zero_def float_div.simps)

text \<open>
  The rounding of a magnitude up to \<open>2^64\<close> stays in range: the exponent found is at most
  the magnitude's, so rounding adds at most one unit in the last place.
\<close>

lemma pow2_powi: "pow2 e = 2 powi e"
  by (cases "0 \<le> e") (simp_all add: pow2_def power_int_def field_simps)

lemma bit_length_bounds:
  "0 < a \<Longrightarrow> 1 \<le> bit_length a \<and> 2 ^ nat (bit_length a - 1) \<le> a \<and> a < 2 ^ nat (bit_length a)"
proof (induction a rule: bit_length.induct)
  case (1 a)
  show ?case
  proof (cases "a = 1")
    case True
    then show ?thesis by (simp add: bit_length.simps [of 1] bit_length.simps [of 0])
  next
    case False
    with "1.prems" have pos: "0 < a div 2" by simp
    from "1.prems" have na: "\<not> a \<le> 0" by simp
    from "1.IH" [OF na pos] have ih: "1 \<le> bit_length (a div 2)"
      "2 ^ nat (bit_length (a div 2) - 1) \<le> a div 2" "a div 2 < 2 ^ nat (bit_length (a div 2))"
      by simp_all
    have bl: "bit_length a = 1 + bit_length (a div 2)"
      using na by (simp add: bit_length.simps [of a])
    have e1: "nat (bit_length a - 1) = Suc (nat (bit_length (a div 2) - 1))"
      using bl ih(1) by simp
    have e2: "nat (bit_length a) = Suc (nat (bit_length (a div 2)))"
      using bl ih(1) by simp
    have "2 * 2 ^ nat (bit_length (a div 2) - 1) \<le> a" using ih(2) by linarith
    then have lower: "2 ^ nat (bit_length a - 1) \<le> a" unfolding e1 by simp
    have "a < 2 * 2 ^ nat (bit_length (a div 2))" using ih(3) by linarith
    then have upper: "a < 2 ^ nat (bit_length a)" unfolding e2 by simp
    have "1 \<le> bit_length a" using bl ih(1) by simp
    with lower upper show ?thesis by (intro conjI)
  qed
qed

lemma pow2_ilog2_le:
  assumes "0 < q"
  shows "pow2 (ilog2 q) \<le> q"
proof -
  obtain a b where ab: "quotient_of q = (a, b)" by (cases "quotient_of q")
  then have b: "0 < b" using quotient_of_denom_pos by blast
  have q: "q = of_int a / of_int b" using ab by (simp add: quotient_of_div)
  with assms b have a: "0 < a" by (simp add: zero_less_divide_iff)
  let ?d = "bit_length a - bit_length b"
  show ?thesis
  proof (cases "pow2 ?d \<le> q")
    case True
    then show ?thesis by (simp add: ilog2_def ab)
  next
    case False
    from bit_length_bounds [OF a] have la: "1 \<le> bit_length a" "2 ^ nat (bit_length a - 1) \<le> a"
      by simp_all
    from bit_length_bounds [OF b] have lb: "1 \<le> bit_length b" "b < 2 ^ nat (bit_length b)"
      by simp_all
    have "?d - 1 = (bit_length a - 1) - bit_length b" by simp
    then have "pow2 (?d - 1) = 2 powi ((bit_length a - 1) - bit_length b)"
      by (simp only: pow2_powi)
    also have "\<dots> = 2 powi (bit_length a - 1) / 2 powi (bit_length b)"
      by (rule power_int_diff) simp
    also have "\<dots> = 2 ^ nat (bit_length a - 1) / 2 ^ nat (bit_length b)"
      using la(1) lb(1) by (simp add: power_int_def)
    also have "\<dots> \<le> of_int a / of_int b"
    proof (rule frac_le)
      show "(2::rat) ^ nat (bit_length a - 1) \<le> of_int a"
        using la(2) by (metis of_int_le_iff of_int_numeral of_int_power)
      show "of_int b \<le> (2::rat) ^ nat (bit_length b)"
        using lb(2) by (metis less_imp_le of_int_le_iff of_int_numeral of_int_power)
      show "(0::rat) < of_int b" using b by simp
      show "(0::rat) \<le> of_int a" using a by simp
    qed
    finally have "pow2 (?d - 1) \<le> of_int a / of_int b" .
    then have "pow2 (?d - 1) \<le> q" by (simp only: q)
    with False show ?thesis by (simp add: ilog2_def ab)
  qed
qed


lemma round_half_even_le: "of_int (round_half_even x) \<le> x + 1"
proof -
  have "rat_of_int \<lfloor>x\<rfloor> \<le> x + 1" and "rat_of_int (\<lfloor>x\<rfloor> + 1) \<le> x + 1"
    using of_int_floor_le [of x] by linarith+
  moreover have "round_half_even x = \<lfloor>x\<rfloor> \<or> round_half_even x = \<lfloor>x\<rfloor> + 1"
    by (simp add: round_half_even_def Let_def)
  ultimately show ?thesis
    by (elim disjE) (simp_all only:)
qed

lemma pow2_pos: "0 < pow2 e"
  by (simp add: pow2_def)

lemma pow2_mono: "a \<le> b \<Longrightarrow> pow2 a \<le> pow2 b"
  by (simp add: pow2_powi power_int_increasing)

lemma pow2_shift: "pow2 (e - 52) = pow2 e / 2 ^ 52"
proof -
  have "pow2 (e - 52) = 2 powi e / 2 powi 52"
    unfolding pow2_powi by (rule power_int_diff) simp
  then show ?thesis by (simp add: pow2_powi)
qed

text \<open>Rounding moves a magnitude by at most one unit in the last place.\<close>

lemma round_binary64_in_range:
  assumes "0 \<le> q" and "q \<le> 2 ^ 64"
  shows "\<exists>m. round_binary64 q = Some m"
proof (cases "q = 0")
  case True
  then show ?thesis by (simp add: round_binary64_def)
next
  case False
  with assms have pos: "0 < q" by simp
  define e where "e = max (ilog2 q) (- 1022)"
  define ulp where "ulp = pow2 (e - 52)"
  define r where "r = of_int (round_half_even (q / ulp)) * ulp"
  have ulp_pos: "0 < ulp" by (simp add: ulp_def pow2_pos)
  have "pow2 e \<le> max q 1"
  proof (cases "ilog2 q \<le> - 1022")
    case True
    then have "e = - 1022" by (simp add: e_def)
    then have "pow2 e \<le> 1" by (simp add: pow2_def)
    then show ?thesis by simp
  next
    case False
    then have "e = ilog2 q" by (simp add: e_def)
    with pow2_ilog2_le [OF pos] show ?thesis by simp
  qed
  then have "pow2 e \<le> 2 ^ 64" using assms(2) by simp
  then have ulp_le: "ulp \<le> 2 ^ 12"
    by (simp add: ulp_def pow2_shift field_simps)
  have "r \<le> (q / ulp + 1) * ulp"
    unfolding r_def using round_half_even_le [of "q / ulp"] ulp_pos
    by (simp add: mult_right_mono)
  also have "\<dots> = q + ulp" using ulp_pos by (simp add: field_simps)
  also have "\<dots> \<le> 2 ^ 64 + 2 ^ 12" using assms(2) ulp_le by simp
  also have "\<dots> < pow2 1024" by (simp add: pow2_def)
  finally have "\<not> pow2 1024 \<le> r" by simp
  then show ?thesis
    using False by (simp add: round_binary64_def Let_def e_def ulp_def r_def)
qed

text \<open>
  Scaling an unsigned 64-bit amount by a power of ten never raises: the hypothesis of
  the empty-pool theorem on the quote reserve holds for every amount a token account
  can hold.
\<close>

lemma int_truediv_u64:
  assumes "0 \<le> a" and "a < 2 ^ 64"
  shows "\<exists>x. int_truediv a (10 ^ n) = Inr x"
proof -
  have "(1::rat) \<le> 10 ^ n" by simp
  moreover have "0 \<le> rat_of_int a" using assms(1) by simp
  ultimately have "rat_of_int a * 1 \<le> rat_of_int a * 10 ^ n"
    by (intro mult_left_mono)
  then have "rat_of_int a / 10 ^ n \<le> rat_of_int a"
    by (simp add: divide_le_eq)
  moreover have "rat_of_int a \<le> 2 ^ 64"
    using assms(2) by (metis less_imp_le of_int_le_iff of_int_numeral of_int_power)
  ultimately have "rat_of_int a / 10 ^ n \<le> 2 ^ 64" by simp
  moreover have "0 \<le> rat_of_int a / 10 ^ n" using assms(1) by simp
  ultimately obtain m where "round_binary64 (rat_of_int a / 10 ^ n) = Some m"
    using round_binary64_in_range by blast
  then show ?thesis
    using assms(1) by (simp add: int_truediv_def)
qed

text \<open>
  C1, as the code has it. When the scaled token amount is zero (an empty base reserve,
  \<open>base_reserve = 0\<close>, is the case in point) and the scaling of the quote reserve has
  not itself raised, nothing checks for the empty pool: the float division raises the
  generic ZeroDivisionError, and \<open>get_market_cap\<close> ends with it, before the oracle is
  asked.
\<close>

theorem empty_pool_raises_ZeroDivisionError:
  assumes "get_pool_reserves env (pool_keys self) w = (Inr (base_reserve, quote_reserve), w1)"
    and "int_truediv (int base_reserve) (10 ^ token_decimals self) = Inr token_amt"
    and "is_zero token_amt"
    and "int_truediv (int quote_reserve) (10 ^ quote_decimals self) = Inr sol_amt"
  shows "get_market_cap env self w = (Inl ZeroDivisionError, w1)"
  by (simp add: get_market_cap_after_reserves [OF assms(1)] assms(2,4)
      float_div_by_zero [OF assms(3)])

theorem empty_pool_raises_ZeroDivisionError_witness:
  "get_pool_reserves (demo_env empty_balances (price_response 200)) (pool_keys example_self) 0 =
     (Inr (0, 2000000000), 1) \<and>
   is_zero (Fin False 0) \<and>
   get_market_cap (demo_env empty_balances (price_response 200)) example_self 0 =
     (Inl ZeroDivisionError, 1)"
proof -
  let ?env = "demo_env empty_balances (price_response 200)"
  have r: "get_pool_reserves ?env (pool_keys example_self) 0 = (Inr (0, 2000000000), 1)"
    by (simp add: demo_reserves empty_balances_def or_raise_def)
  have t: "int_truediv (int 0) (10 ^ token_decimals example_self) = Inr (Fin False 0)"
    by (rule zero_reserve_token_amt)
  have z: "is_zero (Fin False 0)"
    by (simp add: is_zero_def)
  have q: "int_truediv (int 2000000000) (10 ^ quote_decimals example_self) = Inr (Fin False 2)"
    by (simp add: example_self_def example_sol_amt)
  from empty_pool_raises_ZeroDivisionError [OF r t z q] r z show ?thesis by (intro conjI)
qed

text \<open>
  The claim as the specification words it fails on this run: the base reserve is 0 and
  what reaches the caller is the raw arithmetic fault.
\<close>

theorem empty_pool_error_counterexample:
  "get_market_cap (demo_env empty_balances (price_response 200)) example_self 0 =
     (Inl ZeroDivisionError, 1)"
proof -
  let ?env = "demo_env empty_balances (price_response 200)"
  have r: "get_pool_reserves ?env (pool_keys example_self) 0 = (Inr (0, 2000000000), 1)"
    by (simp add: demo_reserves empty_balances_def or_raise_def)
  have t: "int_truediv 0 (10 ^ token_decimals example_self) = Inr (Fin False 0)"
    using zero_reserve_token_amt [of "token_decimals example_self"] by simp
  have q: "int_truediv 2000000000 (10 ^ quote_decimals example_self) = Inr (Fin False 2)"
    by (simp add: example_self_def example_sol_amt)
  have d: "float_div (Fin False 2) (Fin False 0) = Inl ZeroDivisionError"
    by (simp add: float_div_by_zero is_zero_def)
  show ?thesis
    by (simp add: get_market_cap_after_reserves [OF r] t q d)
qed

section \<open>The price oracle\<close>

text \<open>What the price fetch raises on a response it cannot use.\<close>

lemma get_sol_price_usd_error_status:
  assumes "requests_get env DIA_URL w = (Inr resp, w1)" and "error_status resp"
  shows "get_sol_price_usd env w = (Inl HTTPError, w1)"
  using assms
  by (simp add: get_sol_price_usd_def and_then_def pure_step_def or_raise_def
      raise_for_status_def error_status_def)

lemma get_sol_price_usd_no_field:
  assumes "requests_get env DIA_URL w = (Inr resp, w1)" and "\<not> has_price_field resp"
  shows "\<exists>e \<in> {HTTPError, JSONDecodeError, TypeError, KeyError}.
           get_sol_price_usd env w = (Inl e, w1)"
proof (cases "body resp")
  case None
  with assms(1) show ?thesis
    by (simp add: get_sol_price_usd_def and_then_def pure_step_def or_raise_def
        raise_for_status_def response_json_def)
next
  case (Some j)
  with assms show ?thesis
    by (cases j)
      (auto simp: get_sol_price_usd_def and_then_def pure_step_def or_raise_def
        raise_for_status_def response_json_def has_price_field_def)
qed

lemma get_sol_price_usd_unusable:
  assumes "oracle_unusable env w"
  shows "\<exists>e. get_sol_price_usd env w = (Inl e, snd (requests_get env DIA_URL w))"
proof (cases "requests_get env DIA_URL w")
  case (Pair r w1)
  show ?thesis
  proof (cases r)
    case (Inl e)
    with Pair show ?thesis
      by (simp add: get_sol_price_usd_def and_then_def)
  next
    case (Inr resp)
    with Pair assms have "error_status resp \<or> \<not> has_price_field resp"
      by (simp add: oracle_unusable_def)
    then show ?thesis
    proof
      assume "error_status resp"
      with Pair Inr get_sol_price_usd_error_status [of env w resp w1] show ?thesis by simp
    next
      assume "\<not> has_price_field resp"
      with Pair Inr get_sol_price_usd_no_field [of env w resp w1] show ?thesis by auto
    qed
  qed
qed

lemma get_market_cap_needs_price:
  assumes "\<forall>w1. \<exists>e w2. get_sol_price_usd env w1 = (Inl e, w2)"
  shows "\<exists>e w2. get_market_cap env self w = (Inl e, w2)"
proof (cases "get_pool_reserves env (pool_keys self) w")
  case (Pair r w1)
  show ?thesis
  proof (cases r)
    case (Inl e)
    with Pair show ?thesis
      by (simp add: get_market_cap_def and_then_def)
  next
    case (Inr reserves)
    obtain e w2 where price: "get_sol_price_usd env w1 = (Inl e, w2)"
      using assms by blast
    from Pair Inr
    have "get_pool_reserves env (pool_keys self) w = (Inr (fst reserves, snd reserves), w1)"
      by simp
    from get_market_cap_after_reserves [OF this] show ?thesis
      by (simp add: price split: sum.splits)
  qed
qed

lemma main_needs_market_cap:
  assumes "\<forall>self w1. \<exists>e w2. get_market_cap env self w1 = (Inl e, w2)"
  shows "\<exists>e w2. main env mint w = (Inl e, w2)"
proof (cases "init env mint 9 None w")
  case (Pair r w1)
  show ?thesis
  proof (cases r)
    case (Inl e)
    with Pair show ?thesis by (simp add: main_def and_then_def)
  next
    case (Inr self)
    obtain e w2 where "get_market_cap env self w1 = (Inl e, w2)"
      using assms by blast
    with Pair Inr show ?thesis by (simp add: main_def and_then_def)
  qed
qed

text \<open>
  C7, as the code has it. While the oracle answers with a 4xx or 5xx status, or with a
  body that has no \<open>"Price"\<close> field (or the request itself raises), the price fetch
  raises after its one request, and neither \<open>get_market_cap\<close> nor the script returns a
  result: each ends with an exception.
\<close>

theorem oracle_failure_is_fatal:
  assumes "\<forall>w. oracle_unusable env w"
  shows "(\<exists>e. get_sol_price_usd env w = (Inl e, snd (requests_get env DIA_URL w))) \<and>
         (\<exists>e w1. get_market_cap env self w = (Inl e, w1)) \<and>
         (\<exists>e w1. main env mint w = (Inl e, w1))"
proof -
  have price: "\<exists>e. get_sol_price_usd env w1 = (Inl e, snd (requests_get env DIA_URL w1))" for w1
    by (rule get_sol_price_usd_unusable) (use assms in simp)
  then have "\<forall>w1. \<exists>e w2. get_sol_price_usd env w1 = (Inl e, w2)"
    by blast
  then have cap: "\<exists>e w2. get_market_cap env self' w1 = (Inl e, w2)" for self' w1
    by (rule get_market_cap_needs_price)
  then have "\<exists>e w2. main env mint w = (Inl e, w2)"
    by (intro main_needs_market_cap) blast
  with price cap show ?thesis by blast
qed

theorem oracle_failure_is_fatal_witness:
  "get_sol_price_usd (demo_env demo_balances no_price_response) 0 = (Inl KeyError, 1) \<and>
   (\<exists>e w1. get_market_cap (demo_env demo_balances no_price_response) example_self 0 = (Inl e, w1)) \<and>
   (\<exists>e w1. main (demo_env demo_balances no_price_response) ''B'' 0 = (Inl e, w1))"
proof -
  let ?env = "demo_env demo_balances no_price_response"
  have "oracle_unusable ?env w" for w
    by (simp add: oracle_unusable_def demo_env_def no_price_response_def has_price_field_def)
  then have unusable: "\<forall>w. oracle_unusable ?env w" by blast
  have "get_sol_price_usd ?env 0 = (Inl KeyError, 1)"
    by (simp add: get_sol_price_usd_def demo_env_def no_price_response_def and_then_def
        pure_step_def or_raise_def raise_for_status_def response_json_def)
  with oracle_failure_is_fatal [OF unusable, of 0 example_self "''B''"] show ?thesis
    by blast
qed

text \<open>
  The claim as the specification words it fails on a status outside 200 to 299 that is
  no error status: the response 300 with a price in its body is accepted.
\<close>

theorem non_2xx_status_counterexample:
  "status_code (price_response 300) = 300 \<and>
   get_sol_price_usd (demo_env demo_balances (price_response 300)) 0 = (Inr (Fin False 100), 1)"
  by (simp add: demo_price) (simp add: price_response_def)

section \<open>Initialisation\<close>

text \<open>
  C9. When the mint's text is an address and the supply is resolved, and the locator
  then finds no pool, \<open>__init__\<close> raises the RuntimeError that names the mint. It raises
  from the state of the node the locator left, so nothing is fetched or computed after
  the search; the script, which builds the object first, ends with the same error.
\<close>

theorem no_pool_aborts_init:
  assumes "pubkey_from_string env mint = Inr k"
    and "(case ts of None \<Rightarrow> get_token_supply env k | Some n \<Rightarrow> returns (IntV n)) w = (Inr s, w1)"
    and "fetch_pool_from_rpc env mint w1 = (Inr None, w2)"
  shows "init env mint qd ts w = (Inl (RuntimeError (''No pool found for mint '' @ mint)), w2) \<and>
         (ts = None \<longrightarrow>
            main env mint w = (Inl (RuntimeError (''No pool found for mint '' @ mint)), w2))"
proof -
  have aborts: "init env mint qd' ts w = (Inl (RuntimeError (''No pool found for mint '' @ mint)), w2)"
    for qd'
    using assms by (simp add: init_def and_then_def pure_step_def raises_def)
  have "main env mint w = (Inl (RuntimeError (''No pool found for mint '' @ mint)), w2)"
    if "ts = None"
    using aborts [of 9] that by (simp add: main_def and_then_def)
  with aborts show ?thesis by blast
qed

theorem no_pool_aborts_init_witness:
  "fetch_pool_from_rpc (demo_env empty_pools (price_response 200)) ''B'' 1 = (Inr None, 13) \<and>
   init (demo_env empty_pools (price_response 200)) ''B'' 9 None 0 =
     (Inl (RuntimeError ''No pool found for mint B''), 13) \<and>
   main (demo_env empty_pools (price_response 200)) ''B'' 0 =
     (Inl (RuntimeError ''No pool found for mint B''), 13)"
proof -
  let ?env = "demo_env empty_pools (price_response 200)"
  have k: "pubkey_from_string ?env ''B'' = Inr (demo_key 1)"
    by code_simp
  have s: "(case None of None \<Rightarrow> get_token_supply ?env (demo_key 1)
            | Some n \<Rightarrow> returns (IntV n)) 0 = (Inr (FloatV (Fin False 1000000)), 1)"
    by (simp add: demo_env_def)
  have none: "fetch_pool_from_rpc ?env ''B'' 1 = (Inr None, 13)"
    by code_simp
  from no_pool_aborts_init [OF k s none, of 9] none show ?thesis
    by simp
qed

end
